theory Spec2Isabelle
  imports Complex_Main "HOL-Library.AList"
begin

section \<open>Characters and strings of Python 2\<close>

text \<open>
  The script is Python 2 (it requires 2.7 and calls \<^verbatim>\<open>urllib.quote\<close>), so a \<^verbatim>\<open>str\<close> is a
  byte string and the \<^verbatim>\<open>re\<close> classes are the ASCII ones: no \<^verbatim>\<open>re.UNICODE\<close> or
  \<^verbatim>\<open>re.LOCALE\<close> flag is given anywhere.
\<close>

definition ord :: "char \<Rightarrow> nat" where
  "ord c = of_char c"

definition is_digit :: "char \<Rightarrow> bool" where
  \<comment> \<open>\<^verbatim>\<open>\d\<close> is \<^verbatim>\<open>[0-9]\<close>\<close>
  "is_digit c = (48 \<le> ord c \<and> ord c \<le> 57)"

definition is_space :: "char \<Rightarrow> bool" where
  \<comment> \<open>\<^verbatim>\<open>\s\<close> is \<^verbatim>\<open>[ \t\n\r\f\v]\<close>\<close>
  "is_space c = (ord c = 32 \<or> (9 \<le> ord c \<and> ord c \<le> 13))"

definition is_upper :: "char \<Rightarrow> bool" where
  "is_upper c = (65 \<le> ord c \<and> ord c \<le> 90)"

definition is_lower :: "char \<Rightarrow> bool" where
  "is_lower c = (97 \<le> ord c \<and> ord c \<le> 122)"

definition is_word :: "char \<Rightarrow> bool" where
  \<comment> \<open>\<^verbatim>\<open>\w\<close> is \<^verbatim>\<open>[a-zA-Z0-9_]\<close>; \<^verbatim>\<open>\W\<close> is its complement\<close>
  "is_word c = (is_lower c \<or> is_upper c \<or> is_digit c \<or> c = CHR ''_'')"

definition lower_char :: "char \<Rightarrow> char" where
  "lower_char c = (if is_upper c then char_of (ord c + 32) else c)"

definition lower :: "string \<Rightarrow> string" where
  \<comment> \<open>\<^verbatim>\<open>str.lower()\<close>\<close>
  "lower s = map lower_char s"

definition py_int :: "string \<Rightarrow> int" where
  \<comment> \<open>\<^verbatim>\<open>int(s)\<close> on a string of decimal digits, the only strings it is given here\<close>
  "py_int s = foldl (\<lambda>a c. 10 * a + (int (ord c) - 48)) 0 s"

fun split_from :: "string \<Rightarrow> string \<Rightarrow> string list" where
  \<comment> \<open>the current piece is kept reversed\<close>
  "split_from piece [] = [rev piece]"
| "split_from piece (c # cs) =
     (if c = CHR 0x0A then rev piece # split_from [] cs else split_from (c # piece) cs)"

definition split_nl :: "string \<Rightarrow> string list" where
  \<comment> \<open>\<^verbatim>\<open>s.split('\n')\<close>\<close>
  "split_nl s = split_from [] s"

definition startswith :: "string \<Rightarrow> string \<Rightarrow> bool" where
  "startswith s p = (take (length p) s = p)"

definition endswith :: "string \<Rightarrow> string \<Rightarrow> bool" where
  "endswith s p = (length p \<le> length s \<and> drop (length s - length p) s = p)"

section \<open>The regular expressions, by backtracking\<close>

text \<open>
  The two patterns of the script are kept as syntax trees and run by a backtracking
  matcher that lists every way a pattern matches a prefix of the subject, in the order
  Python's engine tries them: a repetition is greedy (longest first), an alternation
  tries its left branch first. \<^verbatim>\<open>re.match\<close> takes the first way. A way is the list of
  the groups' texts, in the order of their opening parentheses, with the unread rest
  of the subject. Neither pattern has a group under a repetition.
\<close>

datatype rx =
    Eps
  | Cls "char \<Rightarrow> bool"
  | Cat rx rx
  | Alt rx rx
  | Star rx
  | Group rx

function ways :: "rx \<Rightarrow> string \<Rightarrow> (string list \<times> string) list" where
  "ways Eps s = [([], s)]"
| "ways (Cls P) s = (case s of [] \<Rightarrow> [] | c # cs \<Rightarrow> if P c then [([], cs)] else [])"
| "ways (Cat a b) s =
     concat (map (\<lambda>w. map (\<lambda>v. (fst w @ fst v, snd v)) (ways b (snd w))) (ways a s))"
| "ways (Alt a b) s = ways a s @ ways b s"
| "ways (Star a) s =
     concat (map (\<lambda>w. if length (snd w) < length s then ways (Star a) (snd w) else [])
                 (ways a s))
     @ [([], s)]"
| "ways (Group a) s =
     map (\<lambda>w. (take (length s - length (snd w)) s # fst w, snd w)) (ways a s)"
  by pat_completeness auto
termination
  by (relation "measures [\<lambda>(r, s). size r, \<lambda>(r, s). length s]") auto

definition Plus :: "rx \<Rightarrow> rx" where
  "Plus r = Cat r (Star r)"

fun lit :: "string \<Rightarrow> rx" where
  "lit [] = Eps"
| "lit (c # cs) = Cat (Cls (\<lambda>x. x = c)) (lit cs)"

definition re_match :: "rx \<Rightarrow> string \<Rightarrow> string list option" where
  \<comment> \<open>\<^verbatim>\<open>re.match(pattern, s)\<close>: anchored at the start, so a leading \<^verbatim>\<open>^\<close> adds nothing\<close>
  "re_match r s = (case ways r s of [] \<Rightarrow> None | w # _ \<Rightarrow> Some (fst w))"

definition match_group :: "string list \<Rightarrow> nat \<Rightarrow> string" where
  \<comment> \<open>\<^verbatim>\<open>match.group(n)\<close> for \<^verbatim>\<open>n\<close> from 1\<close>
  "match_group g n = g ! (n - 1)"

definition re_sub_W :: "string \<Rightarrow> string" where
  \<comment> \<open>\<^verbatim>\<open>re.sub('\W', '', s)\<close>: every character that \<^verbatim>\<open>\W\<close> matches is deleted\<close>
  "re_sub_W s = filter is_word s"

definition procrank_rx :: rx where
  \<comment> \<open>\<^verbatim>\<open>^(\S+)\s+\D*(\d+)\<close>\<close>
  "procrank_rx =
     Cat (Group (Plus (Cls (\<lambda>c. \<not> is_space c))))
    (Cat (Plus (Cls is_space))
    (Cat (Star (Cls (\<lambda>c. \<not> is_digit c)))
         (Group (Plus (Cls is_digit)))))"

definition dmd_rx :: rx where
  \<comment> \<open>\<^verbatim>\<open>^dmd-(\d+)-(\d+).(txt|json)\<close>; the dot is any character but a newline\<close>
  "dmd_rx =
     Cat (lit ''dmd-'')
    (Cat (Group (Plus (Cls is_digit)))
    (Cat (lit ''-'')
    (Cat (Group (Plus (Cls is_digit)))
    (Cat (Cls (\<lambda>c. c \<noteq> CHR 0x0A))
         (Group (Alt (lit ''txt'') (lit ''json'')))))))"

section \<open>Paths, numbers, errors\<close>

definition join :: "string \<Rightarrow> string \<Rightarrow> string" where
  \<comment> \<open>\<^verbatim>\<open>os.path.join(a, b)\<close> of posixpath\<close>
  "join a b =
     (if startswith b ''/'' then b
      else if a = [] \<or> endswith a ''/'' then a @ b
      else a @ ''/'' @ b)"

definition basename :: "string \<Rightarrow> string" where
  \<comment> \<open>\<^verbatim>\<open>os.path.basename(p)\<close>: what follows the last slash\<close>
  "basename p = rev (takeWhile (\<lambda>c. c \<noteq> CHR ''/'') (rev p))"

definition dirname :: "string \<Rightarrow> string" where
  \<comment> \<open>\<^verbatim>\<open>os.path.dirname(p)\<close>: up to the last slash, trailing slashes removed unless
      nothing else is there\<close>
  "dirname p =
     (let head = rev (dropWhile (\<lambda>c. c \<noteq> CHR ''/'') (rev p))
      in if head \<noteq> [] \<and> \<not> list_all (\<lambda>c. c = CHR ''/'') head
         then rev (dropWhile (\<lambda>c. c = CHR ''/'') (rev head))
         else head)"

fun dec_nat :: "nat \<Rightarrow> string" where
  "dec_nat n =
     (if n < 10 then [char_of (48 + n)]
      else dec_nat (n div 10) @ [char_of (48 + n mod 10)])"

declare dec_nat.simps [simp del]

definition dec :: "int \<Rightarrow> string" where
  \<comment> \<open>\<^verbatim>\<open>'%d' % i\<close>\<close>
  "dec i = (if i < 0 then CHR ''-'' # dec_nat (nat (- i)) else dec_nat (nat i))"

datatype error =
  IndexError | KeyError | TypeError | AttributeError | ValueError | IOError | OSError

section \<open>Loaded JSON documents\<close>

text \<open>
  What \<^verbatim>\<open>json.load\<close> returns: \<^verbatim>\<open>None\<close>, a bool, an int, a float (with the \<^verbatim>\<open>NaN\<close> and
  \<^verbatim>\<open>Infinity\<close> that the module reads by default), a string, a list, or a dict, here a
  list of items with distinct keys whose order stands for the dict's iteration order.

  The decoder hands out one float object for every \<^verbatim>\<open>NaN\<close> it reads. Two floats are
  compared by value, and a \<^verbatim>\<open>NaN\<close> is unequal to itself; the items of two lists or dicts
  are compared by \<^verbatim>\<open>x is y or x == y\<close>, so there a \<^verbatim>\<open>NaN\<close> equals a \<^verbatim>\<open>NaN\<close>. Every other
  pair of loaded values that can be the same object is equal by value as well.
\<close>

datatype pyfloat = Finite rat | Infinity bool | NaN

datatype json =
    JNull
  | JBool bool
  | JInt int
  | JFloat pyfloat
  | JString string
  | JArray "json list"
  | JObject "(string \<times> json) list"

fun float_eq :: "pyfloat \<Rightarrow> pyfloat \<Rightarrow> bool" where
  "float_eq (Finite a) (Finite b) = (a = b)"
| "float_eq (Infinity s) (Infinity t) = (s = t)"
| "float_eq _ _ = False"

fun num_val :: "json \<Rightarrow> pyfloat option" where
  \<comment> \<open>bools, ints and floats compare by value: \<^verbatim>\<open>True == 1 == 1.0\<close>\<close>
  "num_val (JBool b) = Some (Finite (if b then 1 else 0))"
| "num_val (JInt i) = Some (Finite (of_int i))"
| "num_val (JFloat f) = Some f"
| "num_val _ = None"

definition is_nan :: "json \<Rightarrow> bool" where
  "is_nan j = (j = JFloat NaN)"

fun py_eq :: "json \<Rightarrow> json \<Rightarrow> bool" where
  \<comment> \<open>\<^verbatim>\<open>x == y\<close> on loaded values; items are the same object or equal\<close>
  "py_eq (JArray xs) (JArray ys) =
     list_all2 (\<lambda>x y. (is_nan x \<and> is_nan y) \<or> py_eq x y) xs ys"
| "py_eq (JObject a) (JObject b) =
     (length a = length b \<and>
      list_all (\<lambda>kv. case map_of b (fst kv) of
                        None \<Rightarrow> False
                      | Some w \<Rightarrow> (is_nan (snd kv) \<and> is_nan w) \<or> py_eq (snd kv) w) a)"
| "py_eq (JString s) (JString t) = (s = t)"
| "py_eq JNull JNull = True"
| "py_eq x y =
     (case num_val x of None \<Rightarrow> False
      | Some a \<Rightarrow> (case num_val y of None \<Rightarrow> False | Some b \<Rightarrow> float_eq a b))"

definition py_ne :: "json \<Rightarrow> json \<Rightarrow> bool" where
  \<comment> \<open>\<^verbatim>\<open>x != y\<close>\<close>
  "py_ne x y = (\<not> py_eq x y)"

section \<open>Collaborators and observable effects\<close>

text \<open>
  What the script only calls is a field of the environment: the device transport of
  \<^verbatim>\<open>include.device_utils\<close>, the symbol resolver \<^verbatim>\<open>fix_b2g_stack\<close>, reading and parsing
  files, the clock. An \<^typ>\<open>error option\<close> is \<^verbatim>\<open>Some e\<close> when the call raises \<^verbatim>\<open>e\<close>.
\<close>

record env =
  create_output_dir :: "error + string"
    \<comment> \<open>\<^verbatim>\<open>utils.create_specific_output_dir\<close> or \<^verbatim>\<open>utils.create_new_output_dir\<close>\<close>
  notify_and_pull_files :: "error + string list"
    \<comment> \<open>\<^verbatim>\<open>utils.notify_and_pull_files(...)\<close>: the names of the files pulled\<close>
  pull_procrank_etc :: "error option"
  read_text :: "string \<Rightarrow> error + string"
    \<comment> \<open>\<^verbatim>\<open>open(path, 'r').read()\<close>\<close>
  json_load :: "string \<Rightarrow> error + json"
    \<comment> \<open>\<^verbatim>\<open>json.load(GzipFile(path))\<close>\<close>
  iadd_nonlist :: "json \<Rightarrow> json \<Rightarrow> error + json"
    \<comment> \<open>\<^verbatim>\<open>x += y\<close> where \<^verbatim>\<open>x\<close> is not a list: string concatenation, number arithmetic
        (floating point), \<^verbatim>\<open>TypeError\<close> otherwise\<close>
  fromtimestamp :: "int \<Rightarrow> error option"
    \<comment> \<open>the platform's part of \<^verbatim>\<open>datetime.fromtimestamp(t)\<close>: the conversion to a C double
        and to \<^verbatim>\<open>time_t\<close>, and \<^verbatim>\<open>localtime\<close> with the time zone\<close>
  fix_b2g_stacks_in_file :: "string \<Rightarrow> string \<Rightarrow> error option"
    \<comment> \<open>opening the source through \<^verbatim>\<open>GzipFile(f, 'r')\<close> and running
        \<^verbatim>\<open>fix_b2g_stack.fix_b2g_stacks_in_file\<close> into the destination\<close>
  abspath :: "string \<Rightarrow> string"
    \<comment> \<open>\<^verbatim>\<open>os.path.abspath\<close> on a string (it depends on the working directory)\<close>

record args =
  no_dmd :: bool
  compress_dmd_logs :: bool
  keep_individual_reports :: bool

datatype message =
    Processing_DMD_files
  | Done_processing_DMD_files string
  | Error_processing_DMD_dumps error
  | Cant_merge_property_set
  | Cant_merge_property_value string
  | Got_DMD_dumps nat
  | View_report string
  | Failed_to_retrieve_memory_reports

datatype effect =
    Print message
  | Create string             \<comment> \<open>a file opened for writing\<close>
  | Dump string json          \<comment> \<open>\<^verbatim>\<open>json.dump(doc, open(path, 'w'), indent=2)\<close>\<close>
  | Remove string             \<comment> \<open>\<^verbatim>\<open>os.remove(path)\<close>\<close>
  | Rmdir_if_empty string

section \<open>get_proc_names\<close>

fun proc_names_loop :: "string list \<Rightarrow> (int \<rightharpoonup> string) \<Rightarrow> (int \<rightharpoonup> string)" where
  "proc_names_loop [] proc_names = proc_names"
| "proc_names_loop (line # rest) proc_names =
     (case re_match procrank_rx line of
        None \<Rightarrow> proc_names_loop rest proc_names
      | Some m \<Rightarrow>
          proc_names_loop rest
            (proc_names(py_int (match_group m 2) \<mapsto> lower (re_sub_W (match_group m 1)))))"

definition get_proc_names :: "env \<Rightarrow> string \<Rightarrow> error + (int \<rightharpoonup> string) \<times> string list" where
  "get_proc_names E out_dir =
     (case read_text E (join out_dir ''b2g-procrank'') of
        Inl e \<Rightarrow> Inl e
      | Inr text \<Rightarrow>
          (let procrank = split_nl text
           in Inr (proc_names_loop procrank Map.empty, procrank)))"

section \<open>merge_files\<close>

definition as_dict :: "json \<Rightarrow> error + (string \<times> json) list" where
  \<comment> \<open>\<^verbatim>\<open>d.keys()\<close> exists on a dict only\<close>
  "as_dict j = (case j of JObject kvs \<Rightarrow> Inr kvs | _ \<Rightarrow> Inl AttributeError)"

fun check_props ::
  "(string \<times> json) list \<Rightarrow> (string \<times> json) list \<Rightarrow> message list \<times> error option" where
  \<comment> \<open>\<^verbatim>\<open>for prop in merged_dump: if prop != 'reports' and dump[prop] != merged_dump[prop]: print\<close>\<close>
  "check_props dump [] = ([], None)"
| "check_props dump ((prop, v) # rest) =
     (if prop \<noteq> ''reports'' then
        (case map_of dump prop of
           None \<Rightarrow> ([], Some KeyError)
         | Some w \<Rightarrow>
             (let out = (if py_ne w v then [Cant_merge_property_value prop] else []);
                  r = check_props dump rest
              in (out @ fst r, snd r)))
      else check_props dump rest)"

definition py_iadd :: "env \<Rightarrow> json \<Rightarrow> json \<Rightarrow> error + json" where
  \<comment> \<open>\<^verbatim>\<open>x += y\<close>: a list is extended by the items of any iterable\<close>
  "py_iadd E x y =
     (case x of
        JArray xs \<Rightarrow>
          (case y of
             JArray ys \<Rightarrow> Inr (JArray (xs @ ys))
           | JString s \<Rightarrow> Inr (JArray (xs @ map (\<lambda>c. JString [c]) s))
           | JObject kvs \<Rightarrow> Inr (JArray (xs @ map (\<lambda>kv. JString (fst kv)) kvs))
           | _ \<Rightarrow> Inl TypeError)
      | _ \<Rightarrow> iadd_nonlist E x y)"

definition add_reports ::
  "env \<Rightarrow> (string \<times> json) list \<Rightarrow> (string \<times> json) list \<Rightarrow> error + (string \<times> json) list" where
  \<comment> \<open>\<^verbatim>\<open>merged_dump['reports'] += dump['reports']\<close>\<close>
  "add_reports E merged_dump dump =
     (case map_of merged_dump ''reports'' of
        None \<Rightarrow> Inl KeyError
      | Some x \<Rightarrow>
          (case map_of dump ''reports'' of
             None \<Rightarrow> Inl KeyError
           | Some y \<Rightarrow>
               (case py_iadd E x y of
                  Inl e \<Rightarrow> Inl e
                | Inr z \<Rightarrow> Inr (AList.update ''reports'' z merged_dump))))"

fun merge_loop :: "env \<Rightarrow> json \<Rightarrow> json list \<Rightarrow> message list \<times> (error + json option)" where
  \<comment> \<open>the \<^verbatim>\<open>for dump in dumps[1:]\<close> loop: what it prints, and an exception, \<^verbatim>\<open>None\<close> for
      the early \<^verbatim>\<open>return\<close>, or the merged dump\<close>
  "merge_loop E merged_dump [] = ([], Inr (Some merged_dump))"
| "merge_loop E merged_dump (dump # rest) =
     (case as_dict dump of
        Inl e \<Rightarrow> ([], Inl e)
      | Inr d \<Rightarrow>
          (case as_dict merged_dump of
             Inl e \<Rightarrow> ([], Inl e)
           | Inr m \<Rightarrow>
               if set (map fst d) \<noteq> set (map fst m) then ([Cant_merge_property_set], Inr None)
               else
                 (case check_props d m of
                    (out, Some e) \<Rightarrow> (out, Inl e)
                  | (out, None) \<Rightarrow>
                      (case add_reports E m d of
                         Inl e \<Rightarrow> (out, Inl e)
                       | Inr m' \<Rightarrow>
                           (let r = merge_loop E (JObject m') rest
                            in (out @ fst r, snd r))))))"

definition merge_dumps :: "env \<Rightarrow> string \<Rightarrow> json list \<Rightarrow> effect list \<times> (error + string option)" where
  \<comment> \<open>\<^verbatim>\<open>merge_files\<close> from \<^verbatim>\<open>merged_dump = dumps[0]\<close> on\<close>
  "merge_dumps E dir dumps =
     (case dumps of
        [] \<Rightarrow> ([], Inl IndexError)
      | first # rest \<Rightarrow>
          (case merge_loop E first rest of
             (out, Inl e) \<Rightarrow> (map Print out, Inl e)
           | (out, Inr None) \<Rightarrow> (map Print out, Inr None)
           | (out, Inr (Some merged_dump)) \<Rightarrow>
               (let merged_reports_path = join dir ''memory-reports''
                in (map Print out @ [Dump merged_reports_path merged_dump],
                    Inr (Some merged_reports_path)))))"

fun load_all :: "env \<Rightarrow> string list \<Rightarrow> error + json list" where
  \<comment> \<open>\<^verbatim>\<open>[json.load(GzipFile(p)) for p in paths]\<close>\<close>
  "load_all E [] = Inr []"
| "load_all E (p # ps) =
     (case json_load E p of
        Inl e \<Rightarrow> Inl e
      | Inr d \<Rightarrow> (case load_all E ps of Inl e \<Rightarrow> Inl e | Inr ds \<Rightarrow> Inr (d # ds)))"

definition merge_files :: "env \<Rightarrow> string \<Rightarrow> string list \<Rightarrow> effect list \<times> (error + string option)" where
  "merge_files E dir files =
     (case load_all E (map (join dir) files) of
        Inl e \<Rightarrow> ([], Inl e)
      | Inr dumps \<Rightarrow> merge_dumps E dir dumps)"

section \<open>process_dmd_files\<close>

definition datetime_fromtimestamp :: "env \<Rightarrow> int \<Rightarrow> error option" where
  \<comment> \<open>\<^verbatim>\<open>datetime.fromtimestamp(t)\<close>: what the platform does not refuse is refused by
      \<^verbatim>\<open>datetime\<close> itself when the year is past 9999; from one day after the end of that
      year in UTC on, that is so in every time zone\<close>
  "datetime_fromtimestamp E t =
     (case fromtimestamp E t of
        Some e \<Rightarrow> Some e
      | None \<Rightarrow> if 253402300800 + 86400 \<le> t then Some ValueError else None)"

definition outfile_name_of :: "env \<Rightarrow> (int \<rightharpoonup> string) \<Rightarrow> string \<Rightarrow> error + string" where
  \<comment> \<open>the name chosen in the loop body of \<^verbatim>\<open>process_dmd_files_impl\<close>, from the basename \<^verbatim>\<open>b\<close>;
      an error when decoding the creation time raises\<close>
  "outfile_name_of E proc_names b =
     (case re_match dmd_rx b of
        Some dmd_filename_match \<Rightarrow>
          (case datetime_fromtimestamp E (py_int (match_group dmd_filename_match 1)) of
             Some e \<Rightarrow> Inl e
           | None \<Rightarrow>
               (let pid = py_int (match_group dmd_filename_match 2);
                    kind = match_group dmd_filename_match 3
                in case proc_names pid of
                     Some proc_name \<Rightarrow> Inr (''dmd-'' @ proc_name @ ''-'' @ dec pid @ ''.'' @ kind)
                   | None \<Rightarrow> Inr (''dmd-'' @ dec pid @ ''.'' @ kind)))
      | None \<Rightarrow>
          (let outfile_name = ''processed-'' @ b
           in if endswith outfile_name ''.gz''
              then Inr (take (length outfile_name - 3) outfile_name)
              else Inr outfile_name))"

definition written_path :: "args \<Rightarrow> string \<Rightarrow> string \<Rightarrow> string" where
  \<comment> \<open>the file opened for writing: \<^verbatim>\<open>GzipFile(outfile_path + '.gz', 'w')\<close> when
      \<^verbatim>\<open>args.compress_dmd_logs\<close>, else \<^verbatim>\<open>open(outfile_path, 'w')\<close>\<close>
  "written_path A out_dir outfile_name =
     (let outfile_path = join out_dir outfile_name
      in if compress_dmd_logs A then outfile_path @ ''.gz'' else outfile_path)"

definition process_one ::
  "env \<Rightarrow> args \<Rightarrow> string \<Rightarrow> (int \<rightharpoonup> string) \<Rightarrow> string \<Rightarrow> effect list \<times> error option" where
  \<comment> \<open>one turn of \<^verbatim>\<open>for f in dmd_files\<close>\<close>
  "process_one E A out_dir proc_names f =
     (case outfile_name_of E proc_names (basename f) of
        Inl e \<Rightarrow> ([], Some e)
      | Inr outfile_name \<Rightarrow>
          (let dest = written_path A out_dir outfile_name
           in case fix_b2g_stacks_in_file E f dest of
                Some e \<Rightarrow> ([Create dest], Some e)
              | None \<Rightarrow>
                  ([Create dest] @ (if keep_individual_reports A then [] else [Remove f]),
                   None)))"

fun dmd_loop ::
  "env \<Rightarrow> args \<Rightarrow> string \<Rightarrow> (int \<rightharpoonup> string) \<Rightarrow> string list \<Rightarrow> effect list \<times> error option" where
  \<comment> \<open>the loop has no handler of its own: an exception leaves it at once\<close>
  "dmd_loop E A out_dir proc_names [] = ([], None)"
| "dmd_loop E A out_dir proc_names (f # rest) =
     (case process_one E A out_dir proc_names f of
        (effs, Some e) \<Rightarrow> (effs, Some e)
      | (effs, None) \<Rightarrow>
          (let r = dmd_loop E A out_dir proc_names rest in (effs @ fst r, snd r)))"

definition process_dmd_files_impl :: "env \<Rightarrow> string list \<Rightarrow> args \<Rightarrow> effect list \<times> error option" where
  \<comment> \<open>\<^verbatim>\<open>get_objdir_and_product(args)\<close> swallows its own exceptions and only fills in
      options that are handed to the symbol resolver; it is left out\<close>
  "process_dmd_files_impl E dmd_files A =
     (case dmd_files of
        [] \<Rightarrow> ([], Some IndexError)
      | f0 # _ \<Rightarrow>
          (let out_dir = dirname f0
           in case get_proc_names E out_dir of
                Inl e \<Rightarrow> ([], Some e)
              | Inr (proc_names, procrank) \<Rightarrow> dmd_loop E A out_dir proc_names dmd_files))"

definition process_dmd_files :: "env \<Rightarrow> string list \<Rightarrow> args \<Rightarrow> effect list" where
  \<comment> \<open>\<^verbatim>\<open>try: process_dmd_files_impl(...) except Exception\<close>: nothing is raised to the caller\<close>
  "process_dmd_files E dmd_files A =
     (if dmd_files = [] \<or> no_dmd A then []
      else
        Print Processing_DMD_files #
        (case process_dmd_files_impl E dmd_files A of
           (effs, None) \<Rightarrow> effs @ [Print (Done_processing_DMD_files (dirname (hd dmd_files)))]
         | (effs, Some e) \<Rightarrow> effs @ [Print (Error_processing_DMD_dumps e)]))"

section \<open>get_dumps and get_and_show_info\<close>

definition py_abspath :: "env \<Rightarrow> string option \<Rightarrow> error + string" where
  \<comment> \<open>\<^verbatim>\<open>os.path.abspath(p)\<close>: on \<^verbatim>\<open>None\<close> it raises, \<^verbatim>\<open>None\<close> has no \<^verbatim>\<open>startswith\<close>\<close>
  "py_abspath E p = (case p of None \<Rightarrow> Inl AttributeError | Some s \<Rightarrow> Inr (abspath E s))"

definition is_memory_report :: "string \<Rightarrow> bool" where
  "is_memory_report f = (startswith f ''memory-report-'' \<or> startswith f ''unified-memory-report-'')"

definition is_dmd_file :: "string \<Rightarrow> bool" where
  "is_dmd_file f = startswith f ''dmd-''"

definition do_work ::
  "env \<Rightarrow> args \<Rightarrow> string \<Rightarrow> effect list \<times> (error + string \<times> string option \<times> string list)" where
  "do_work E A out_dir =
     (case notify_and_pull_files E of
        Inl e \<Rightarrow> ([], Inl e)
      | Inr new_files \<Rightarrow>
          (let memory_report_files = filter is_memory_report new_files;
               dmd_files = filter is_dmd_file new_files;
               merged =
                 (if memory_report_files \<noteq> [] then
                    (case merge_files E out_dir memory_report_files of
                       (effs, Inl e) \<Rightarrow> (effs, Inl e)
                     | (effs, Inr p) \<Rightarrow>
                         (case py_abspath E p of
                            Inl e \<Rightarrow> (effs, Inl e)
                          | Inr a \<Rightarrow> (effs, Inr (Some a))))
                  else ([], Inr None))
           in case merged of
                (effs, Inl e) \<Rightarrow> (effs, Inl e)
              | (effs, Inr merged_reports_path) \<Rightarrow>
                  (case pull_procrank_etc E of
                     Some e \<Rightarrow> (effs, Inl e)
                   | None \<Rightarrow>
                       (effs @
                        (if keep_individual_reports A then []
                         else map (\<lambda>f. Remove (join out_dir f)) memory_report_files),
                        Inr (out_dir, merged_reports_path, map (join out_dir) dmd_files)))))"

definition run_and_delete_dir_on_exception ::
  "effect list \<times> (error + 'a) \<Rightarrow> string \<Rightarrow> effect list \<times> (error + 'a)" where
  \<comment> \<open>Modelled from the spec: \<^verbatim>\<open>utils.run_and_delete_dir_on_exception\<close> is not in the
      sources. It runs the work; if the work raises, the directory is removed when it is
      still empty and the failure ends the run.\<close>
  "run_and_delete_dir_on_exception work dir =
     (case work of
        (effs, Inl e) \<Rightarrow> (effs @ [Rmdir_if_empty dir], Inl e)
      | (effs, Inr r) \<Rightarrow> (effs, Inr r))"

definition get_dumps ::
  "env \<Rightarrow> args \<Rightarrow> effect list \<times> (error + string \<times> string option \<times> string list)" where
  "get_dumps E A =
     (case create_output_dir E of
        Inl e \<Rightarrow> ([], Inl e)
      | Inr out_dir \<Rightarrow> run_and_delete_dir_on_exception (do_work E A out_dir) out_dir)"

definition get_and_show_info :: "env \<Rightarrow> args \<Rightarrow> effect list \<times> (error + unit)" where
  \<comment> \<open>up to \<^verbatim>\<open>process_dmd_files\<close>; opening the browser, the GC/CC logs, the kgsl logs and
      the archive are calls to collaborators and are left out\<close>
  "get_and_show_info E A =
     (case get_dumps E A of
        (effs, Inl e) \<Rightarrow> (effs, Inl e)
      | (effs, Inr (out_dir, merged_reports_path, dmd_files)) \<Rightarrow>
          (effs
           @ (if dmd_files \<noteq> [] \<and> \<not> no_dmd A then [Print (Got_DMD_dumps (length dmd_files))]
              else [])
           @ (case merged_reports_path of
                Some p \<Rightarrow>
                  if p \<noteq> [] then [Print (View_report p)]
                  else [Print Failed_to_retrieve_memory_reports]
              | None \<Rightarrow> [Print Failed_to_retrieve_memory_reports])
           @ process_dmd_files E dmd_files A,
           Inr ()))"

section \<open>Properties of names\<close>

definition lower_alnum :: "char \<Rightarrow> bool" where
  \<comment> \<open>a lowercase letter or a digit\<close>
  "lower_alnum c = (is_lower c \<or> is_digit c)"

definition lower_word :: "char \<Rightarrow> bool" where
  \<comment> \<open>a lowercase letter, a digit or the underscore\<close>
  "lower_word c = (is_lower c \<or> is_digit c \<or> c = CHR ''_'')"

section \<open>Properties of fragments\<close>

definition property_names :: "json \<Rightarrow> string set" where
  \<comment> \<open>the top-level property names of a document\<close>
  "property_names j = (case j of JObject kvs \<Rightarrow> set (map fst kvs) | _ \<Rightarrow> {})"

definition property :: "json \<Rightarrow> string \<Rightarrow> json option" where
  \<comment> \<open>the value of a top-level property\<close>
  "property j p = (case j of JObject kvs \<Rightarrow> map_of kvs p | _ \<Rightarrow> None)"

definition reports_of :: "json \<Rightarrow> json list" where
  \<comment> \<open>the entries of the \<^verbatim>\<open>reports\<close> list\<close>
  "reports_of j = (case property j ''reports'' of Some (JArray rs) \<Rightarrow> rs | _ \<Rightarrow> [])"

definition is_fragment :: "json \<Rightarrow> bool" where
  \<comment> \<open>a memory-report fragment: an object whose \<^verbatim>\<open>reports\<close> property is a list\<close>
  "is_fragment j = (case property j ''reports'' of Some (JArray rs) \<Rightarrow> True | _ \<Rightarrow> False)"

definition same_names :: "json \<Rightarrow> json \<Rightarrow> bool" where
  \<comment> \<open>two documents have the same set of property names\<close>
  "same_names a b = (property_names a = property_names b)"

section \<open>Example inputs\<close>

definition fragment_a :: json where
  "fragment_a = JObject [(''version'', JInt 1), (''reports'', JArray [JString ''r1''])]"

definition fragment_b :: json where
  "fragment_b = JObject [(''reports'', JArray [JString ''r2'', JString ''r3'']), (''version'', JInt 1)]"

definition fragment_c :: json where
  \<comment> \<open>the names of \<^const>\<open>fragment_a\<close>, another version\<close>
  "fragment_c = JObject [(''version'', JInt 2), (''reports'', JArray [JString ''r4''])]"

definition fragment_d :: json where
  \<comment> \<open>other names\<close>
  "fragment_d = JObject [(''reports'', JArray []), (''hasMozMallocUsableSize'', JBool True)]"

definition fragment_int :: json where
  "fragment_int = JObject [(''hasMozMallocUsableSize'', JInt 1), (''reports'', JArray [])]"

definition fragment_bool :: json where
  \<comment> \<open>\<^const>\<open>fragment_int\<close> with \<^verbatim>\<open>true\<close> for \<^verbatim>\<open>1\<close>\<close>
  "fragment_bool = JObject [(''hasMozMallocUsableSize'', JBool True), (''reports'', JArray [])]"

definition procrank_text :: string where
  "procrank_text = ''APPLICATION  PID\<newline>b2g  1234  0\<newline>(Preallocated a  77  0''"

definition example_env :: env where
  \<comment> \<open>a session \<^verbatim>\<open>out\<close> with two fragments of different names and three DMD dumps, the
      second of which is not a gzip file\<close>
  "example_env =
     \<lparr> create_output_dir = Inr ''out'',
       notify_and_pull_files =
         Inr [''memory-report-1'', ''memory-report-2'', ''dmd-1609459200-1234.json.gz'',
              ''dmd-1609459200-77.txt.gz'', ''dmd-1609459200-5.txt.gz''],
       pull_procrank_etc = None,
       read_text = (\<lambda>p. if p = ''out/b2g-procrank'' then Inr procrank_text else Inl IOError),
       json_load =
         (\<lambda>p. if p = ''out/memory-report-1'' then Inr fragment_a
              else if p = ''out/memory-report-2'' then Inr fragment_d
              else Inl IOError),
       iadd_nonlist = (\<lambda>x y. Inl TypeError),
       fromtimestamp = (\<lambda>t. None),
       fix_b2g_stacks_in_file =
         (\<lambda>f dest. if f = ''out/dmd-1609459200-77.txt.gz'' then Some IOError else None),
       abspath = (\<lambda>p. ''/home/user/'' @ p) \<rparr>"

definition example_args :: args where
  \<comment> \<open>the defaults of the command line\<close>
  "example_args = \<lparr> no_dmd = False, compress_dmd_logs = True, keep_individual_reports = False \<rparr>"

definition no_reports_env :: env where
  \<comment> \<open>the session of \<^const>\<open>example_env\<close> when no memory report arrived\<close>
  "no_reports_env =
     example_env \<lparr> notify_and_pull_files := Inr [''dmd-1609459200-1234.json.gz''] \<rparr>"

section \<open>The names the specification gives to outputs\<close>

definition without_trailing_gz :: "string \<Rightarrow> string" where
  \<comment> \<open>a basename with a trailing \<^verbatim>\<open>.gz\<close> stripped\<close>
  "without_trailing_gz b = (if endswith b ''.gz'' then take (length b - 3) b else b)"

definition dmd_output_name :: "(int \<rightharpoonup> string) \<Rightarrow> int \<Rightarrow> string \<Rightarrow> string" where
  \<comment> \<open>\<^verbatim>\<open>dmd-<resolvedName>-<pid>.<format>\<close> when the PID is in the name map, else
      \<^verbatim>\<open>dmd-<pid>.<format>\<close>\<close>
  "dmd_output_name proc_names pid format =
     (case proc_names pid of
        Some name \<Rightarrow> ''dmd-'' @ name @ ''-'' @ dec pid @ ''.'' @ format
      | None \<Rightarrow> ''dmd-'' @ dec pid @ ''.'' @ format)"

definition gz_suffix :: "args \<Rightarrow> string" where
  \<comment> \<open>\<^verbatim>\<open>.gz\<close> if and only if the compress-DMD-logs option is on\<close>
  "gz_suffix A = (if compress_dmd_logs A then ''.gz'' else [])"

section \<open>Properties\<close>

subsection \<open>What the patterns match\<close>

lemma ways_Cls: "ways (Cls P) s = (if s \<noteq> [] \<and> P (hd s) then [([], tl s)] else [])"
  by (cases s) simp_all

lemma ways_lit:
  "ways (lit l) s = (if take (length l) s = l then [([], drop (length l) s)] else [])"
proof (induction l arbitrary: s)
  case Nil
  then show ?case by simp
next
  case (Cons c cs)
  show ?case
  proof (cases s)
    case Nil
    then show ?thesis by simp
  next
    case (Cons x xs)
    with Cons.IH [of xs] show ?thesis by auto
  qed
qed

lemma ways_Cat_lit: "ways (Cat (lit l) b) (l @ s) = ways b s"
  by (simp add: ways_lit)

lemma ways_Star_Cls:
  "ways (Star (Cls P)) s = map (\<lambda>n. ([], drop n s)) (rev [0..<Suc (length (takeWhile P s))])"
proof (induction s)
  case Nil
  then show ?case by simp
next
  case (Cons c cs)
  show ?case
  proof (cases "P c")
    case False
    then show ?thesis by simp
  next
    case True
    have "[0..<Suc (Suc (length (takeWhile P cs)))] = 0 # [Suc 0..<Suc (Suc (length (takeWhile P cs)))]"
      by (rule upt_conv_Cons) simp
    also have "[Suc 0..<Suc (Suc (length (takeWhile P cs)))] = map Suc [0..<Suc (length (takeWhile P cs))]"
      by (rule map_Suc_upt [symmetric])
    finally have "[0..<Suc (Suc (length (takeWhile P cs)))] = 0 # map Suc [0..<Suc (length (takeWhile P cs))]" .
    with True Cons.IH show ?thesis
      by (simp add: comp_def rev_map del: upt_Suc)
  qed
qed

lemma ways_Plus_Cls:
  "ways (Plus (Cls P)) s = map (\<lambda>n. ([], drop n s)) (rev [1..<Suc (length (takeWhile P s))])"
proof (cases s)
  case Nil
  then show ?thesis by (simp add: Plus_def)
next
  case (Cons c cs)
  show ?thesis
  proof (cases "P c")
    case False
    with Cons show ?thesis by (simp add: Plus_def)
  next
    case True
    have "[Suc 0..<Suc (Suc (length (takeWhile P cs)))] = map Suc [0..<Suc (length (takeWhile P cs))]"
      by (rule map_Suc_upt [symmetric])
    with True Cons show ?thesis
      by (simp add: Plus_def ways_Star_Cls comp_def rev_map del: upt_Suc ways.simps(5))
  qed
qed

lemma ways_Group_Plus:
  "ways (Group (Plus (Cls P))) s =
     map (\<lambda>n. ([take n s], drop n s)) (rev [1..<Suc (length (takeWhile P s))])"
proof -
  have "length (takeWhile P s) \<le> length s"
    by (rule length_takeWhile_le)
  then show ?thesis
    by (simp add: ways_Plus_Cls comp_def del: upt_Suc)
qed

lemma takeWhile_run:
  "list_all P ds \<Longrightarrow> r = [] \<or> \<not> P (hd r) \<Longrightarrow> takeWhile P (ds @ r) = ds"
  by (cases r) (auto simp: list_all_iff takeWhile_append2)

lemma ways_Group_Plus_longest:
  assumes "list_all P ds" and "ds \<noteq> []" and "r = [] \<or> \<not> P (hd r)"
  shows "ways (Group (Plus (Cls P))) (ds @ r) =
           ([ds], r) # map (\<lambda>n. ([take n (ds @ r)], drop n (ds @ r))) (rev [1..<length ds])"
proof -
  have k: "takeWhile P (ds @ r) = ds"
    using assms(1,3) by (rule takeWhile_run)
  from assms(2) have "1 \<le> length ds"
    by (cases ds) simp_all
  then have "[1..<Suc (length ds)] = [1..<length ds] @ [length ds]"
    by (rule upt_Suc_append)
  then show ?thesis
    unfolding ways_Group_Plus k by simp
qed

lemma ways_Cat_first:
  assumes "ways a s = w # ws" and "ways b (snd w) = v # vs"
  shows "\<exists>t. ways (Cat a b) s = (fst w @ fst v, snd v) # t"
  using assms by simp

lemma ways_Cat_second:
  assumes "ways a s = w1 # w2 # ws" and "ways b (snd w1) = []" and "ways b (snd w2) = v # vs"
  shows "\<exists>t. ways (Cat a b) s = (fst w2 @ fst v, snd v) # t"
  using assms by simp

lemma digits_then:
  assumes "list_all P ds" and "ds \<noteq> []" and "r = [] \<or> \<not> P (hd r)" and "ways b r = v # vs"
  shows "\<exists>t. ways (Cat (Group (Plus (Cls P))) b) (ds @ r) = (ds # fst v, snd v) # t"
proof -
  from ways_Cat_first [OF ways_Group_Plus_longest [OF assms(1-3)], of b v vs] assms(4)
  show ?thesis by simp
qed

lemma digits_give_back_one:
  assumes "list_all P ds" and "ds \<noteq> []" and "P c" and "r = [] \<or> \<not> P (hd r)"
    and "ways b r = []" and "ways b (c # r) = v # vs"
  shows "\<exists>t. ways (Cat (Group (Plus (Cls P))) b) (ds @ c # r) = (ds # fst v, snd v) # t"
proof -
  have all: "list_all P (ds @ [c])" using assms(1,3) by simp
  have ne: "ds @ [c] \<noteq> []" by simp
  from assms(2) have "1 \<le> length ds" by (cases ds) simp_all
  then have "[1..<Suc (length ds)] = [1..<length ds] @ [length ds]"
    by (rule upt_Suc_append)
  then have "rev [1..<length (ds @ [c])] = length ds # rev [1..<length ds]"
    by simp
  with ways_Group_Plus_longest [OF all ne assms(4)]
  have "ways (Group (Plus (Cls P))) (ds @ c # r) =
      ([ds @ [c]], r) # ([ds], c # r) #
      map (\<lambda>n. ([take n (ds @ c # r)], drop n (ds @ c # r))) (rev [1..<length ds])"
    by simp
  from ways_Cat_second [OF this, of b v vs] assms(5,6) show ?thesis by simp
qed

lemma ways_format:
  assumes "fmt = ''txt'' \<or> fmt = ''json''"
  shows "ways (Group (Alt (lit ''txt'') (lit ''json''))) (fmt @ rest) = [([fmt], rest)]"
  using assms by (auto simp: ways_lit)

lemma ways_format_tail:
  assumes "fmt = ''txt'' \<or> fmt = ''json''"
  shows "ways (Cat (Cls (\<lambda>c. c \<noteq> CHR 0x0A)) (Group (Alt (lit ''txt'') (lit ''json''))))
           (fmt @ rest) = []"
  using assms by (auto simp: ways_lit)

lemma ways_dot_format:
  assumes "c \<noteq> CHR 0x0A" and "fmt = ''txt'' \<or> fmt = ''json''"
  shows "ways (Cat (Cls (\<lambda>c. c \<noteq> CHR 0x0A)) (Group (Alt (lit ''txt'') (lit ''json''))))
           (c # fmt @ rest) = [([fmt], rest)]"
proof -
  have "ways (Cat (Cls (\<lambda>c. c \<noteq> CHR 0x0A)) (Group (Alt (lit ''txt'') (lit ''json''))))
           (c # fmt @ rest) = ways (Group (Alt (lit ''txt'') (lit ''json''))) (fmt @ rest)"
    using assms(1) by (simp del: ways.simps(4,6))
  then show ?thesis
    using ways_format [OF assms(2)] by simp
qed

lemma format_not_digit:
  assumes "fmt = ''txt'' \<or> fmt = ''json''"
  shows "fmt @ rest = [] \<or> \<not> is_digit (hd (fmt @ rest))"
  using assms by (auto simp: is_digit_def ord_def)

lemma in_ways_Cat_lit:
  assumes "w \<in> set (ways (Cat (lit l) r) s)"
  obtains s' where "s = l @ s'" and "w \<in> set (ways r s')"
proof -
  from assms have t: "take (length l) s = l" and w: "w \<in> set (ways r (drop (length l) s))"
    by (auto simp: ways_lit split: if_splits)
  from t have "s = l @ drop (length l) s"
    by (metis append_take_drop_id)
  with w that show thesis by blast
qed

lemma take_run:
  assumes "n \<le> length (takeWhile P s)"
  shows "list_all P (take n s)"
proof -
  have "take n (takeWhile P s @ dropWhile P s) = take n (takeWhile P s)"
    using assms by (simp del: takeWhile_dropWhile_id)
  then have "take n s = take n (takeWhile P s)"
    by simp
  then have "set (take n s) \<subseteq> set (takeWhile P s)"
    by (simp add: set_take_subset)
  then show ?thesis
    by (auto simp: list_all_iff dest: set_takeWhileD)
qed

lemma in_ways_Cat_digits:
  assumes "w \<in> set (ways (Cat (Group (Plus (Cls P))) r) s)"
  obtains ds s' v where "s = ds @ s'" and "ds \<noteq> []" and "list_all P ds"
    and "v \<in> set (ways r s')" and "w = (ds # fst v, snd v)"
proof -
  from assms obtain n v where n: "1 \<le> n" "n \<le> length (takeWhile P s)"
    and v: "v \<in> set (ways r (drop n s))" and w: "w = (take n s # fst v, snd v)"
    by (auto simp: ways_Group_Plus simp del: upt_Suc ways.simps(6))
  have "length (takeWhile P s) \<le> length s" by (rule length_takeWhile_le)
  with n have "take n s \<noteq> []" by (cases s) auto
  moreover have "list_all P (take n s)" using n(2) by (rule take_run)
  moreover have "s = take n s @ drop n s" by simp
  ultimately show thesis using v w that by blast
qed

lemma in_ways_Cat_Cls:
  assumes "w \<in> set (ways (Cat (Cls Q) r) s)"
  obtains c s' where "s = c # s'" and "Q c" and "w \<in> set (ways r s')"
  using assms by (cases s) (auto split: if_splits)

lemma in_ways_format:
  assumes "w \<in> set (ways (Group (Alt (lit ''txt'') (lit ''json''))) s)"
  obtains fmt rest where "s = fmt @ rest" and "fmt = ''txt'' \<or> fmt = ''json''"
    and "w = ([fmt], rest)"
proof -
  from assms consider
      "take 3 s = ''txt''" "w = ([take (length s - length (drop 3 s)) s], drop 3 s)"
    | "take 4 s = ''json''" "w = ([take (length s - length (drop 4 s)) s], drop 4 s)"
    by (auto simp: ways_lit split: if_splits)
  then show thesis
  proof cases
    case 1
    from 1(1) have "3 \<le> length s" by (cases "3 \<le> length s") auto
    then have "length s - length (drop 3 s) = 3" by simp
    with 1 have "w = ([''txt''], drop 3 s)" by simp
    moreover from 1(1) have "s = ''txt'' @ drop 3 s" by (metis append_take_drop_id)
    ultimately show thesis using that by blast
  next
    case 2
    from 2(1) have "4 \<le> length s" by (cases "4 \<le> length s") auto
    then have "length s - length (drop 4 s) = 4" by simp
    with 2 have "w = ([''json''], drop 4 s)" by simp
    moreover from 2(1) have "s = ''json'' @ drop 4 s" by (metis append_take_drop_id)
    ultimately show thesis using that by blast
  qed
qed

lemma in_ways_Star_Cls:
  assumes "w \<in> set (ways (Cat (Star (Cls P)) r) s)"
  obtains ds s' where "s = ds @ s'" and "list_all P ds" and "w \<in> set (ways r s')"
proof -
  from assms obtain n where n: "n \<le> length (takeWhile P s)"
    and w: "w \<in> set (ways r (drop n s))"
    by (auto simp: ways_Star_Cls less_Suc_eq_le simp del: upt_Suc ways.simps(5))
  have "list_all P (take n s)" using n by (rule take_run)
  moreover have "s = take n s @ drop n s" by simp
  ultimately show thesis using w that by blast
qed

lemma in_ways_Plus_Cls:
  assumes "w \<in> set (ways (Cat (Plus (Cls P)) r) s)"
  obtains ds s' where "s = ds @ s'" and "ds \<noteq> []" and "list_all P ds" and "w \<in> set (ways r s')"
proof -
  from assms obtain n where n: "1 \<le> n" "n \<le> length (takeWhile P s)"
    and w: "w \<in> set (ways r (drop n s))"
    by (auto simp: ways_Plus_Cls simp del: upt_Suc)
  have "length (takeWhile P s) \<le> length s" by (rule length_takeWhile_le)
  with n have "take n s \<noteq> []" by (cases s) auto
  moreover have "list_all P (take n s)" using n(2) by (rule take_run)
  moreover have "s = take n s @ drop n s" by simp
  ultimately show thesis using w that by blast
qed

lemma in_ways_digits:
  assumes "w \<in> set (ways (Group (Plus (Cls P))) s)"
  obtains ds rest where "s = ds @ rest" and "ds \<noteq> []" and "list_all P ds" and "w = ([ds], rest)"
proof -
  from assms obtain n where n: "1 \<le> n" "n \<le> length (takeWhile P s)"
    and w: "w = ([take n s], drop n s)"
    by (auto simp: ways_Group_Plus simp del: upt_Suc ways.simps(6))
  have "length (takeWhile P s) \<le> length s" by (rule length_takeWhile_le)
  with n have "take n s \<noteq> []" by (cases s) auto
  moreover have "list_all P (take n s)" using n(2) by (rule take_run)
  moreover have "s = take n s @ drop n s" by simp
  ultimately show thesis using w that by blast
qed

lemma procrank_match_shape:
  assumes "re_match procrank_rx line = Some m"
  shows "\<exists>word gap skipped pid rest.
           line = word @ gap @ skipped @ pid @ rest \<and> m = [word, pid] \<and>
           word \<noteq> [] \<and> list_all (\<lambda>c. \<not> is_space c) word \<and>
           gap \<noteq> [] \<and> list_all is_space gap \<and>
           list_all (\<lambda>c. \<not> is_digit c) skipped \<and>
           pid \<noteq> [] \<and> list_all is_digit pid"
proof -
  from assms obtain w where w: "w \<in> set (ways procrank_rx line)" and m: "m = fst w"
    by (auto simp: re_match_def split: list.splits)
  from w obtain word s1 v where l: "line = word @ s1"
    and word: "word \<noteq> []" "list_all (\<lambda>c. \<not> is_space c) word"
    and v: "v \<in> set (ways (Cat (Plus (Cls is_space))
                       (Cat (Star (Cls (\<lambda>c. \<not> is_digit c)))
                            (Group (Plus (Cls is_digit))))) s1)"
    and wv: "w = (word # fst v, snd v)"
    unfolding procrank_rx_def by (rule in_ways_Cat_digits)
  from v obtain gap s2 where s1: "s1 = gap @ s2" and gap: "gap \<noteq> []" "list_all is_space gap"
    and v2: "v \<in> set (ways (Cat (Star (Cls (\<lambda>c. \<not> is_digit c)))
                            (Group (Plus (Cls is_digit)))) s2)"
    by (rule in_ways_Plus_Cls)
  from v2 obtain skipped s3 where s2: "s2 = skipped @ s3"
    and sk: "list_all (\<lambda>c. \<not> is_digit c) skipped"
    and v3: "v \<in> set (ways (Group (Plus (Cls is_digit))) s3)"
    by (rule in_ways_Star_Cls)
  from v3 obtain pid rest where s3: "s3 = pid @ rest" and pid: "pid \<noteq> []" "list_all is_digit pid"
    and vv: "v = ([pid], rest)"
    by (rule in_ways_digits)
  have "line = word @ gap @ skipped @ pid @ rest"
    using l s1 s2 s3 by simp
  moreover have "m = [word, pid]"
    using m wv vv by simp
  ultimately show ?thesis
    using word gap sk pid by blast
qed

lemma dmd_match_shape:
  assumes "re_match dmd_rx b = Some m"
  shows "\<exists>ts p c fmt rest.
           b = ''dmd-'' @ ts @ ''-'' @ p @ c # fmt @ rest \<and> m = [ts, p, fmt] \<and>
           ts \<noteq> [] \<and> list_all is_digit ts \<and> p \<noteq> [] \<and> list_all is_digit p \<and>
           c \<noteq> CHR 0x0A \<and> (fmt = ''txt'' \<or> fmt = ''json'')"
proof -
  from assms obtain w where w: "w \<in> set (ways dmd_rx b)" and m: "m = fst w"
    by (auto simp: re_match_def split: list.splits)
  from w obtain s1 where b: "b = ''dmd-'' @ s1"
    and w1: "w \<in> set (ways (Cat (Group (Plus (Cls is_digit)))
       (Cat (lit ''-'')
       (Cat (Group (Plus (Cls is_digit)))
       (Cat (Cls (\<lambda>c. c \<noteq> CHR 0x0A))
            (Group (Alt (lit ''txt'') (lit ''json''))))))) s1)"
    unfolding dmd_rx_def by (rule in_ways_Cat_lit)
  from w1 obtain ts s2 v2 where s1: "s1 = ts @ s2" and ts: "ts \<noteq> []" "list_all is_digit ts"
    and v2: "v2 \<in> set (ways (Cat (lit ''-'')
       (Cat (Group (Plus (Cls is_digit)))
       (Cat (Cls (\<lambda>c. c \<noteq> CHR 0x0A))
            (Group (Alt (lit ''txt'') (lit ''json'')))))) s2)"
    and wv: "w = (ts # fst v2, snd v2)"
    by (rule in_ways_Cat_digits)
  from v2 obtain s3 where s2: "s2 = ''-'' @ s3"
    and v3: "v2 \<in> set (ways (Cat (Group (Plus (Cls is_digit)))
       (Cat (Cls (\<lambda>c. c \<noteq> CHR 0x0A))
            (Group (Alt (lit ''txt'') (lit ''json''))))) s3)"
    by (rule in_ways_Cat_lit)
  from v3 obtain p s4 v4 where s3: "s3 = p @ s4" and p: "p \<noteq> []" "list_all is_digit p"
    and v4: "v4 \<in> set (ways (Cat (Cls (\<lambda>c. c \<noteq> CHR 0x0A))
            (Group (Alt (lit ''txt'') (lit ''json'')))) s4)"
    and vv: "v2 = (p # fst v4, snd v4)"
    by (rule in_ways_Cat_digits)
  from v4 obtain c s5 where s4: "s4 = c # s5" and c: "c \<noteq> CHR 0x0A"
    and v5: "v4 \<in> set (ways (Group (Alt (lit ''txt'') (lit ''json''))) s5)"
    by (rule in_ways_Cat_Cls)
  from v5 obtain fmt rest where s5: "s5 = fmt @ rest" and fmt: "fmt = ''txt'' \<or> fmt = ''json''"
    and v: "v4 = ([fmt], rest)"
    by (rule in_ways_format)
  have "b = ''dmd-'' @ ts @ ''-'' @ p @ c # fmt @ rest"
    using b s1 s2 s3 s4 s5 by simp
  moreover have "m = [ts, p, fmt]"
    using m wv vv v by simp
  ultimately show ?thesis
    using ts p c fmt by blast
qed

text \<open>
  C10, as the code has it. The pattern \<^verbatim>\<open>^dmd-(\d+)-(\d+).(txt|json)\<close> asks for no literal
  dot and does not anchor the end: every basename made of \<^verbatim>\<open>dmd-\<close>, digits, a dash, digits,
  any one character other than a newline, \<^verbatim>\<open>txt\<close> or \<^verbatim>\<open>json\<close>, and anything after that is
  matched, with those digits as timestamp and PID and that format as the groups.
\<close>

theorem dmd_pattern_loose:
  assumes "ts \<noteq> []" and "list_all is_digit ts"
    and "p \<noteq> []" and "list_all is_digit p"
    and "c \<noteq> CHR 0x0A"
    and "fmt = ''txt'' \<or> fmt = ''json''"
  shows "re_match dmd_rx (''dmd-'' @ ts @ ''-'' @ p @ c # fmt @ rest) = Some [ts, p, fmt]"
proof -
  let ?tail = "Cat (Cls (\<lambda>c. c \<noteq> CHR 0x0A)) (Group (Alt (lit ''txt'') (lit ''json'')))"
  let ?R3 = "Cat (Group (Plus (Cls is_digit))) ?tail"
  let ?R2 = "Cat (lit ''-'') ?R3"
  let ?R1 = "Cat (Group (Plus (Cls is_digit))) ?R2"
  have tail: "ways ?tail (c # fmt @ rest) = [([fmt], rest)]"
    using assms(5,6) by (rule ways_dot_format)
  have "\<exists>t. ways ?R3 (p @ c # fmt @ rest) = (p # fst ([fmt], rest), snd ([fmt], rest)) # t"
  proof (cases "is_digit c")
    case False
    then have "c # fmt @ rest = [] \<or> \<not> is_digit (hd (c # fmt @ rest))" by simp
    with assms(4,3) show ?thesis
      using tail by (rule digits_then)
  next
    case True
    have "ways ?tail (fmt @ rest) = []"
      using assms(6) by (rule ways_format_tail)
    with assms(4,3) True format_not_digit [OF assms(6)] show ?thesis
      using tail by (rule digits_give_back_one)
  qed
  then obtain t3 where r3: "ways ?R3 (p @ c # fmt @ rest) = ([p, fmt], rest) # t3"
    by auto
  have "ways ?R2 (''-'' @ p @ c # fmt @ rest) = ways ?R3 (p @ c # fmt @ rest)"
    by (rule ways_Cat_lit)
  with r3 have r2: "ways ?R2 (''-'' @ p @ c # fmt @ rest) = ([p, fmt], rest) # t3"
    by simp
  have "''-'' @ p @ c # fmt @ rest = [] \<or> \<not> is_digit (hd (''-'' @ p @ c # fmt @ rest))"
    by (simp add: is_digit_def ord_def)
  with assms(2,1) have
    "\<exists>t. ways ?R1 (ts @ ''-'' @ p @ c # fmt @ rest)
        = (ts # fst ([p, fmt], rest), snd ([p, fmt], rest)) # t"
    using r2 by (rule digits_then)
  then obtain t1 where r1: "ways ?R1 (ts @ ''-'' @ p @ c # fmt @ rest) = ([ts, p, fmt], rest) # t1"
    by auto
  have "ways dmd_rx (''dmd-'' @ ts @ ''-'' @ p @ c # fmt @ rest)
      = ways ?R1 (ts @ ''-'' @ p @ c # fmt @ rest)"
    unfolding dmd_rx_def by (rule ways_Cat_lit)
  with r1 show ?thesis
    by (simp add: re_match_def)
qed

theorem dmd_pattern_loose_witness:
  "''9999999'' \<noteq> [] \<and> list_all is_digit ''9999999'' \<and> ''111'' \<noteq> [] \<and> list_all is_digit ''111'' \<and>
   CHR ''X'' \<noteq> CHR 0x0A \<and> (''json'' = ''txt'' \<or> ''json'' = ''json'') \<and>
   re_match dmd_rx ''dmd-9999999-111Xjson'' = Some [''9999999'', ''111'', ''json'']"
proof -
  have h2: "list_all is_digit ''9999999''" by code_simp
  have h4: "list_all is_digit ''111''" by code_simp
  have "re_match dmd_rx (''dmd-'' @ ''9999999'' @ ''-'' @ ''111'' @ CHR ''X'' # ''json'' @ [])
      = Some [''9999999'', ''111'', ''json'']"
    by (rule dmd_pattern_loose) (use h2 h4 in simp_all)
  with h2 h4 show ?thesis by simp
qed

text \<open>
  C10 as it is written fails for one character: the dot of the pattern does not match a
  newline, and such a basename gets the generic name.
\<close>

theorem dmd_pattern_newline_counterexample:
  "re_match dmd_rx ''dmd-9999999-111\<newline>json'' = None \<and>
   outfile_name_of example_env Map.empty ''dmd-9999999-111\<newline>json''
     = Inr ''processed-dmd-9999999-111\<newline>json''"
  by code_simp

subsection \<open>The process names\<close>

lemma lower_char_word: "is_word c \<Longrightarrow> lower_word (lower_char c)"
  by (auto simp: is_word_def lower_word_def lower_char_def is_upper_def is_lower_def
      is_digit_def ord_def)

lemma normalized_lower_word: "list_all lower_word (lower (re_sub_W s))"
  by (induction s) (simp_all add: lower_def re_sub_W_def lower_char_word)

lemma proc_names_loop_origin:
  "proc_names_loop ls pn k = Some name \<Longrightarrow>
   pn k = Some name \<or>
   (\<exists>l \<in> set ls. \<exists>m. re_match procrank_rx l = Some m \<and> py_int (match_group m 2) = k \<and>
      name = lower (re_sub_W (match_group m 1)))"
proof (induction ls arbitrary: pn)
  case Nil
  then show ?case by simp
next
  case (Cons l ls)
  show ?case
  proof (cases "re_match procrank_rx l")
    case None
    with Cons show ?thesis by auto
  next
    case (Some m)
    with Cons.prems have
      "proc_names_loop ls (pn(py_int (match_group m 2) \<mapsto> lower (re_sub_W (match_group m 1)))) k
         = Some name"
      by simp
    from Cons.IH [OF this] Some show ?thesis
      by (auto split: if_splits)
  qed
qed

lemma proc_names_loop_keeps:
  "pn k \<noteq> None \<Longrightarrow> proc_names_loop ls pn k \<noteq> None"
  by (induction ls arbitrary: pn) (auto split: option.splits)

lemma proc_names_loop_hit:
  "l \<in> set ls \<Longrightarrow> re_match procrank_rx l = Some m \<Longrightarrow>
   proc_names_loop ls pn (py_int (match_group m 2)) \<noteq> None"
proof (induction ls arbitrary: pn)
  case Nil
  then show ?case by simp
next
  case (Cons a ls)
  show ?case
  proof (cases "l = a")
    case True
    with Cons.prems show ?thesis
      by (simp add: proc_names_loop_keeps)
  next
    case False
    with Cons show ?thesis
      by (auto split: option.splits)
  qed
qed

text \<open>
  C1, as the code has it. For every snapshot text, a line that the pattern
  \<^verbatim>\<open>^(\S+)\s+\D*(\d+)\<close> matches (its groups are the first word and a run of digits) puts
  its PID into the map, and the name the map holds for that PID is the first word of a
  matching line with that PID, every character other than an ASCII letter, digit or
  underscore deleted and the rest lowercased: it consists of lowercase letters, digits
  and underscores only.
\<close>

theorem get_proc_names_normalized:
  assumes "line \<in> set (split_nl text)" and "re_match procrank_rx line = Some m"
  shows "\<exists>word pid name.
           m = [word, pid] \<and> pid \<noteq> [] \<and> list_all is_digit pid \<and>
           proc_names_loop (split_nl text) Map.empty (py_int pid) = Some name \<and>
           list_all lower_word name \<and>
           (\<exists>l \<in> set (split_nl text). \<exists>word' pid'.
              re_match procrank_rx l = Some [word', pid'] \<and> py_int pid' = py_int pid \<and>
              name = lower (re_sub_W word'))"
proof -
  from procrank_match_shape [OF assms(2)] obtain word pid where
    m: "m = [word, pid]" and pid: "pid \<noteq> []" "list_all is_digit pid"
    by blast
  have g: "match_group m 2 = pid"
    using m by (simp add: match_group_def)
  from proc_names_loop_hit [OF assms] obtain name where
    n: "proc_names_loop (split_nl text) Map.empty (py_int pid) = Some name"
    unfolding g by blast
  from proc_names_loop_origin [OF n] obtain l m' where
    l: "l \<in> set (split_nl text)" and m': "re_match procrank_rx l = Some m'"
    and p': "py_int (match_group m' 2) = py_int pid"
    and nm: "name = lower (re_sub_W (match_group m' 1))"
    by auto
  from procrank_match_shape [OF m'] obtain word' pid' where s': "m' = [word', pid']"
    by blast
  have o: "\<exists>l \<in> set (split_nl text). \<exists>word' pid'.
              re_match procrank_rx l = Some [word', pid'] \<and> py_int pid' = py_int pid \<and>
              name = lower (re_sub_W word')"
    using l m' p' nm s' by (auto simp: match_group_def)
  have "list_all lower_word name"
    unfolding nm by (rule normalized_lower_word)
  with m pid n o show ?thesis by blast
qed

theorem get_proc_names_normalized_witness:
  "''x_Y (z) 7'' \<in> set (split_nl ''b2g 12\<newline>x_Y (z) 7'') \<and>
   re_match procrank_rx ''x_Y (z) 7'' = Some [''x_Y'', ''7''] \<and>
   (\<exists>name. proc_names_loop (split_nl ''b2g 12\<newline>x_Y (z) 7'') Map.empty (py_int ''7'')
              = Some name \<and>
           list_all lower_word name)"
proof -
  have h1: "''x_Y (z) 7'' \<in> set (split_nl ''b2g 12\<newline>x_Y (z) 7'')"
    by code_simp
  have h2: "re_match procrank_rx ''x_Y (z) 7'' = Some [''x_Y'', ''7'']"
    by code_simp
  from get_proc_names_normalized [OF h1 h2] h1 h2 show ?thesis
    by blast
qed

text \<open>
  C1 as it is written fails: the underscore is a word character, \<^verbatim>\<open>\W\<close> does not match
  it, and the name of the line \<^verbatim>\<open>a_b 12\<close> keeps it.
\<close>

theorem get_proc_names_underscore_counterexample:
  "re_match procrank_rx ''a_b 12'' = Some [''a_b'', ''12''] \<and>
   proc_names_loop (split_nl ''a_b 12'') Map.empty 12 = Some ''a_b'' \<and>
   \<not> list_all lower_alnum ''a_b''"
  by code_simp

subsection \<open>The merge\<close>

lemma is_fragment_iff:
  "is_fragment j \<longleftrightarrow> (\<exists>kvs rs. j = JObject kvs \<and> map_of kvs ''reports'' = Some (JArray rs))"
proof (cases j)
  case (JObject kvs)
  show ?thesis
  proof (cases "map_of kvs ''reports''")
    case None
    with JObject show ?thesis by (simp add: is_fragment_def property_def)
  next
    case (Some v)
    with JObject show ?thesis by (cases v) (simp_all add: is_fragment_def property_def)
  qed
qed (simp_all add: is_fragment_def property_def)

lemma is_fragmentE:
  assumes "is_fragment j"
  obtains kvs rs where "j = JObject kvs" and "map_of kvs ''reports'' = Some (JArray rs)"
  using assms is_fragment_iff by blast

lemma check_props_update:
  "check_props d (AList.update ''reports'' z m) = check_props d m"
  by (induction m) (auto split: option.splits)

lemma check_props_no_error:
  "fst ` set m \<subseteq> fst ` set d \<Longrightarrow> snd (check_props d m) = None"
proof (induction m)
  case Nil
  then show ?case by simp
next
  case (Cons a m)
  obtain p v where a: "a = (p, v)" by (cases a)
  from Cons.prems a have "p \<in> fst ` set d" by simp
  then obtain w where "map_of d p = Some w"
    by (metis domD dom_map_of_conv_image_fst)
  with Cons a show ?case by (simp add: Let_def)
qed

lemma check_props_reports:
  "map_of m p = Some v \<Longrightarrow> p \<noteq> ''reports'' \<Longrightarrow> map_of d p = Some w \<Longrightarrow> py_ne w v \<Longrightarrow>
   fst ` set m \<subseteq> fst ` set d \<Longrightarrow>
   Cant_merge_property_value p \<in> set (fst (check_props d m))"
proof (induction m)
  case Nil
  then show ?case by simp
next
  case (Cons a m)
  obtain q u where a: "a = (q, u)" by (cases a)
  from Cons.prems a have "q \<in> fst ` set d" by simp
  then obtain x where x: "map_of d q = Some x"
    by (metis domD dom_map_of_conv_image_fst)
  show ?case
  proof (cases "q = p")
    case True
    with Cons.prems a x show ?thesis by (simp add: Let_def)
  next
    case False
    with Cons a x show ?thesis by (auto simp: Let_def)
  qed
qed

lemma add_reports_lists:
  "map_of m ''reports'' = Some (JArray rs) \<Longrightarrow> map_of d ''reports'' = Some (JArray ys) \<Longrightarrow>
   add_reports E m d = Inr (AList.update ''reports'' (JArray (rs @ ys)) m)"
  by (simp add: add_reports_def py_iadd_def)

lemma keys_update:
  "map_of m k = Some v \<Longrightarrow> set (map fst (AList.update k z m)) = set (map fst m)"
  by (induction m) (auto split: if_splits)

lemma merge_loop_ok:
  assumes "map_of m ''reports'' = Some (JArray rs)"
    and "list_all is_fragment ds"
    and "list_all (same_names (JObject m)) ds"
  shows "snd (merge_loop E (JObject m) ds) =
      Inr (Some (JObject (AList.update ''reports'' (JArray (rs @ concat (map reports_of ds))) m)))"
  using assms
proof (induction ds arbitrary: m rs)
  case Nil
  then show ?case by (simp add: update_triv)
next
  case (Cons d ds)
  from Cons.prems(2) have "is_fragment d" by simp
  then obtain kvs ys where d: "d = JObject kvs" and ys: "map_of kvs ''reports'' = Some (JArray ys)"
    by (rule is_fragmentE)
  from Cons.prems(3) d have keys: "set (map fst kvs) = set (map fst m)"
    by (simp add: same_names_def property_names_def)
  have ne: "snd (check_props kvs m) = None"
    by (rule check_props_no_error) (use keys in simp)
  obtain out where cp: "check_props kvs m = (out, None)"
    using ne by (cases "check_props kvs m") simp
  let ?m' = "AList.update ''reports'' (JArray (rs @ ys)) m"
  have ar: "add_reports E m kvs = Inr ?m'"
    using Cons.prems(1) ys by (rule add_reports_lists)
  have m'r: "map_of ?m' ''reports'' = Some (JArray (rs @ ys))"
    by (simp add: update_conv')
  have k': "set (map fst ?m') = set (map fst m)"
    using Cons.prems(1) by (rule keys_update)
  have "same_names (JObject ?m') = same_names (JObject m)"
    using k' by (simp add: fun_eq_iff same_names_def property_names_def)
  with Cons.prems(3) have same': "list_all (same_names (JObject ?m')) ds"
    by simp
  from Cons.prems(2) have fr: "list_all is_fragment ds" by simp
  have IH: "snd (merge_loop E (JObject ?m') ds) =
      Inr (Some (JObject (AList.update ''reports''
         (JArray ((rs @ ys) @ concat (map reports_of ds))) ?m')))"
    using m'r fr same' by (rule Cons.IH)
  have ry: "reports_of d = ys"
    using d ys by (simp add: reports_of_def property_def)
  show ?case
    using d keys cp ar IH ry
    by (simp add: as_dict_def Let_def)
qed

lemma merge_loop_mismatch:
  assumes "map_of m ''reports'' = Some (JArray rs)"
    and "list_all is_fragment ds"
    and "\<not> list_all (same_names (JObject m)) ds"
  shows "\<exists>out. merge_loop E (JObject m) ds = (out @ [Cant_merge_property_set], Inr None)"
  using assms
proof (induction ds arbitrary: m rs)
  case Nil
  then show ?case by simp
next
  case (Cons d ds)
  from Cons.prems(2) have "is_fragment d" by simp
  then obtain kvs ys where d: "d = JObject kvs" and ys: "map_of kvs ''reports'' = Some (JArray ys)"
    by (rule is_fragmentE)
  show ?case
  proof (cases "set (map fst kvs) = set (map fst m)")
    case False
    then have "merge_loop E (JObject m) (d # ds) = ([] @ [Cant_merge_property_set], Inr None)"
      using d by (simp add: as_dict_def)
    then show ?thesis by blast
  next
    case True
    have ne: "snd (check_props kvs m) = None"
      by (rule check_props_no_error) (use True in simp)
    obtain out where cp: "check_props kvs m = (out, None)"
      using ne by (cases "check_props kvs m") simp
    let ?m' = "AList.update ''reports'' (JArray (rs @ ys)) m"
    have ar: "add_reports E m kvs = Inr ?m'"
      using Cons.prems(1) ys by (rule add_reports_lists)
    have m'r: "map_of ?m' ''reports'' = Some (JArray (rs @ ys))"
      by (simp add: update_conv')
    have k': "set (map fst ?m') = set (map fst m)"
      using Cons.prems(1) by (rule keys_update)
    have sn: "same_names (JObject ?m') = same_names (JObject m)"
      using k' by (simp add: fun_eq_iff same_names_def property_names_def)
    have "same_names (JObject m) d"
      using True d by (simp add: same_names_def property_names_def)
    with Cons.prems(3) sn have diff: "\<not> list_all (same_names (JObject ?m')) ds"
      by simp
    from Cons.prems(2) have fr: "list_all is_fragment ds" by simp
    from Cons.IH [OF m'r fr diff] obtain out' where
      "merge_loop E (JObject ?m') ds = (out' @ [Cant_merge_property_set], Inr None)"
      by blast
    then have "merge_loop E (JObject m) (d # ds) = ((out @ out') @ [Cant_merge_property_set], Inr None)"
      using d True cp ar by (simp add: as_dict_def Let_def)
    then show ?thesis by blast
  qed
qed

lemma merge_loop_reports_conflict:
  assumes "map_of m ''reports'' = Some (JArray rs)"
    and "list_all is_fragment ds"
    and "list_all (same_names (JObject m)) ds"
    and "JObject kvs \<in> set ds"
    and "msg \<in> set (fst (check_props kvs m))"
  shows "msg \<in> set (fst (merge_loop E (JObject m) ds))"
  using assms
proof (induction ds arbitrary: m rs)
  case Nil
  then show ?case by simp
next
  case (Cons d ds)
  from Cons.prems(2) have "is_fragment d" by simp
  then obtain kvs' ys where d: "d = JObject kvs'" and ys: "map_of kvs' ''reports'' = Some (JArray ys)"
    by (rule is_fragmentE)
  from Cons.prems(3) d have keys: "set (map fst kvs') = set (map fst m)"
    by (simp add: same_names_def property_names_def)
  have ne: "snd (check_props kvs' m) = None"
    by (rule check_props_no_error) (use keys in simp)
  obtain out where cp: "check_props kvs' m = (out, None)"
    using ne by (cases "check_props kvs' m") simp
  let ?m' = "AList.update ''reports'' (JArray (rs @ ys)) m"
  have ar: "add_reports E m kvs' = Inr ?m'"
    using Cons.prems(1) ys by (rule add_reports_lists)
  have step: "fst (merge_loop E (JObject m) (d # ds)) = out @ fst (merge_loop E (JObject ?m') ds)"
    using d keys cp ar by (simp add: as_dict_def Let_def)
  show ?case
  proof (cases "JObject kvs = d")
    case True
    with d cp Cons.prems(5) have "msg \<in> set out" by simp
    with step show ?thesis by simp
  next
    case False
    with Cons.prems(4) have mem: "JObject kvs \<in> set ds" by simp
    have m'r: "map_of ?m' ''reports'' = Some (JArray (rs @ ys))"
      by (simp add: update_conv')
    have k': "set (map fst ?m') = set (map fst m)"
      using Cons.prems(1) by (rule keys_update)
    have "same_names (JObject ?m') = same_names (JObject m)"
      using k' by (simp add: fun_eq_iff same_names_def property_names_def)
    with Cons.prems(3) have same': "list_all (same_names (JObject ?m')) ds"
      by simp
    from Cons.prems(2) have fr: "list_all is_fragment ds" by simp
    have "msg \<in> set (fst (check_props kvs ?m'))"
      using Cons.prems(5) by (simp add: check_props_update)
    from Cons.IH [OF m'r fr same' mem this] step show ?thesis by simp
  qed
qed

text \<open>
  C2. When the fragments do not all have the same set of top-level property names, the
  merge returns \<^verbatim>\<open>None\<close>: it raises nothing, writes no file (its only effects are
  messages, the last one the report of the mismatch) and hands back no document,
  wherever in the sequence the fragment with the other names stands. A fragment is a
  document with a \<^verbatim>\<open>reports\<close> list.
\<close>

theorem merge_schema_mismatch:
  assumes "list_all is_fragment dumps"
    and "\<not> list_all (same_names (hd dumps)) dumps"
  shows "\<exists>out. merge_dumps E dir dumps = (map Print (out @ [Cant_merge_property_set]), Inr None)"
proof (cases dumps)
  case Nil
  with assms(2) show ?thesis by simp
next
  case (Cons first rest)
  from assms(1) Cons have "is_fragment first" by simp
  then obtain m rs where f: "first = JObject m" and r: "map_of m ''reports'' = Some (JArray rs)"
    by (rule is_fragmentE)
  from assms(1) Cons have fr: "list_all is_fragment rest" by simp
  from assms(2) Cons f have "\<not> list_all (same_names (JObject m)) rest"
    by (simp add: same_names_def)
  from merge_loop_mismatch [OF r fr this] obtain out where
    "merge_loop E (JObject m) rest = (out @ [Cant_merge_property_set], Inr None)"
    by blast
  with Cons f have "merge_dumps E dir dumps = (map Print (out @ [Cant_merge_property_set]), Inr None)"
    by (simp add: merge_dumps_def)
  then show ?thesis by blast
qed

theorem merge_schema_mismatch_witness:
  "list_all is_fragment [fragment_a, fragment_b, fragment_d] \<and>
   \<not> list_all (same_names (hd [fragment_a, fragment_b, fragment_d]))
         [fragment_a, fragment_b, fragment_d] \<and>
   (\<exists>out. merge_dumps example_env ''out'' [fragment_a, fragment_b, fragment_d] =
      (map Print (out @ [Cant_merge_property_set]), Inr None))"
proof -
  have h1: "list_all is_fragment [fragment_a, fragment_b, fragment_d]"
    by code_simp
  have h2: "\<not> list_all (same_names (hd [fragment_a, fragment_b, fragment_d]))
         [fragment_a, fragment_b, fragment_d]"
    by code_simp
  from merge_schema_mismatch [OF h1 h2] h1 h2 show ?thesis
    by blast
qed

text \<open>
  C4. For every non-empty sequence of fragments with the same property names, the merge
  writes one document to \<^verbatim>\<open>memory-reports\<close> and returns its path, and the \<^verbatim>\<open>reports\<close>
  list of that document is the concatenation of the fragments' \<^verbatim>\<open>reports\<close> lists in the
  order the fragments were given.
\<close>

theorem merge_reports_concatenated:
  assumes "dumps \<noteq> []"
    and "list_all is_fragment dumps"
    and "list_all (same_names (hd dumps)) dumps"
  shows "\<exists>out doc.
           merge_dumps E dir dumps =
             (map Print out @ [Dump (join dir ''memory-reports'') doc],
              Inr (Some (join dir ''memory-reports''))) \<and>
           reports_of doc = concat (map reports_of dumps)"
proof (cases dumps)
  case Nil
  with assms(1) show ?thesis by simp
next
  case (Cons first rest)
  from assms(2) Cons have "is_fragment first" by simp
  then obtain m rs where f: "first = JObject m" and r: "map_of m ''reports'' = Some (JArray rs)"
    by (rule is_fragmentE)
  from assms(2) Cons have fr: "list_all is_fragment rest" by simp
  from assms(3) Cons f have same: "list_all (same_names (JObject m)) rest"
    by simp
  let ?doc = "JObject (AList.update ''reports'' (JArray (rs @ concat (map reports_of rest))) m)"
  have res: "snd (merge_loop E (JObject m) rest) = Inr (Some ?doc)"
    using r fr same by (rule merge_loop_ok)
  obtain out where ml: "merge_loop E (JObject m) rest = (out, Inr (Some ?doc))"
    using res by (cases "merge_loop E (JObject m) rest") simp
  have md: "merge_dumps E dir dumps =
      (map Print out @ [Dump (join dir ''memory-reports'') ?doc],
       Inr (Some (join dir ''memory-reports'')))"
    using Cons f ml by (simp add: merge_dumps_def Let_def)
  have "reports_of first = rs"
    using f r by (simp add: reports_of_def property_def)
  then have "reports_of ?doc = concat (map reports_of dumps)"
    using Cons by (simp add: reports_of_def property_def update_conv')
  with md show ?thesis by blast
qed

theorem merge_reports_concatenated_witness:
  "[fragment_a, fragment_b, fragment_c] \<noteq> [] \<and>
   list_all is_fragment [fragment_a, fragment_b, fragment_c] \<and>
   list_all (same_names (hd [fragment_a, fragment_b, fragment_c]))
     [fragment_a, fragment_b, fragment_c] \<and>
   (\<exists>out doc.
      merge_dumps example_env ''out'' [fragment_a, fragment_b, fragment_c] =
        (map Print out @ [Dump (join ''out'' ''memory-reports'') doc],
         Inr (Some (join ''out'' ''memory-reports''))) \<and>
      reports_of doc = concat (map reports_of [fragment_a, fragment_b, fragment_c]))"
proof -
  have h1: "[fragment_a, fragment_b, fragment_c] \<noteq> []"
    by simp
  have h2: "list_all is_fragment [fragment_a, fragment_b, fragment_c]"
    by code_simp
  have h3: "list_all (same_names (hd [fragment_a, fragment_b, fragment_c]))
     [fragment_a, fragment_b, fragment_c]"
    by code_simp
  from merge_reports_concatenated [OF h1 h2 h3] h2 h3 show ?thesis
    by blast
qed

text \<open>
  C5, as the code has it. When the fragments have the same property names and a later
  fragment's value of a property other than \<^verbatim>\<open>reports\<close> differs from the first
  fragment's by Python's \<^verbatim>\<open>!=\<close>, the merge still writes the merged document and returns
  its path, the conflict on that property is printed, and the merged document is the
  first fragment with its \<^verbatim>\<open>reports\<close> replaced by the concatenation of all the
  fragments' \<^verbatim>\<open>reports\<close>: it has the first fragment's value of the property.
\<close>

theorem merge_property_conflict:
  assumes "list_all is_fragment (first # rest)"
    and "list_all (same_names first) rest"
    and "d \<in> set rest"
    and "p \<noteq> ''reports''"
    and "property first p = Some v"
    and "property d p = Some w"
    and "py_ne w v"
  shows "\<exists>out kvs.
           first = JObject kvs \<and>
           merge_dumps E dir (first # rest) =
             (map Print out @
              [Dump (join dir ''memory-reports'')
                 (JObject (AList.update ''reports''
                    (JArray (concat (map reports_of (first # rest)))) kvs))],
              Inr (Some (join dir ''memory-reports''))) \<and>
           Cant_merge_property_value p \<in> set out \<and>
           property (JObject (AList.update ''reports''
                      (JArray (concat (map reports_of (first # rest)))) kvs)) p = Some v"
proof -
  from assms(1) have "is_fragment first" by simp
  then obtain m rs where f: "first = JObject m" and r: "map_of m ''reports'' = Some (JArray rs)"
    by (rule is_fragmentE)
  from assms(1) have fr: "list_all is_fragment rest" by simp
  from assms(2) f have same: "list_all (same_names (JObject m)) rest"
    by simp
  from fr assms(3) have "is_fragment d" by (simp add: list_all_iff)
  then obtain kvs ys where d: "d = JObject kvs" and "map_of kvs ''reports'' = Some (JArray ys)"
    by (rule is_fragmentE)
  from same assms(3) d have keys: "set (map fst kvs) = set (map fst m)"
    by (auto simp: list_all_iff same_names_def property_names_def)
  have mv: "map_of m p = Some v" using assms(5) f by (simp add: property_def)
  have dw: "map_of kvs p = Some w" using assms(6) d by (simp add: property_def)
  have msg: "Cant_merge_property_value p \<in> set (fst (check_props kvs m))"
    using mv assms(4) dw assms(7) by (rule check_props_reports) (use keys in simp)
  let ?doc = "JObject (AList.update ''reports'' (JArray (rs @ concat (map reports_of rest))) m)"
  have res: "snd (merge_loop E (JObject m) rest) = Inr (Some ?doc)"
    using r fr same by (rule merge_loop_ok)
  obtain out where ml: "merge_loop E (JObject m) rest = (out, Inr (Some ?doc))"
    using res by (cases "merge_loop E (JObject m) rest") simp
  have mem: "JObject kvs \<in> set rest" using assms(3) d by simp
  have "Cant_merge_property_value p \<in> set (fst (merge_loop E (JObject m) rest))"
    using r fr same mem msg by (rule merge_loop_reports_conflict)
  with ml have inout: "Cant_merge_property_value p \<in> set out" by simp
  have md: "merge_dumps E dir (first # rest) =
      (map Print out @ [Dump (join dir ''memory-reports'') ?doc],
       Inr (Some (join dir ''memory-reports'')))"
    using f ml by (simp add: merge_dumps_def Let_def)
  have pv: "property ?doc p = Some v"
    using mv assms(4) by (simp add: property_def update_conv')
  have "reports_of first = rs"
    using f r by (simp add: reports_of_def property_def)
  then have c: "concat (map reports_of (first # rest)) = rs @ concat (map reports_of rest)"
    by simp
  from f md inout pv show ?thesis
    unfolding c by blast
qed

theorem merge_property_conflict_witness:
  "list_all is_fragment (fragment_a # [fragment_b, fragment_c]) \<and>
   list_all (same_names fragment_a) [fragment_b, fragment_c] \<and>
   fragment_c \<in> set [fragment_b, fragment_c] \<and>
   ''version'' \<noteq> ''reports'' \<and>
   property fragment_a ''version'' = Some (JInt 1) \<and>
   property fragment_c ''version'' = Some (JInt 2) \<and>
   py_ne (JInt 2) (JInt 1) \<and>
   (\<exists>out kvs.
      fragment_a = JObject kvs \<and>
      merge_dumps example_env ''out'' (fragment_a # [fragment_b, fragment_c]) =
        (map Print out @
         [Dump (join ''out'' ''memory-reports'')
            (JObject (AList.update ''reports''
               (JArray (concat (map reports_of (fragment_a # [fragment_b, fragment_c])))) kvs))],
         Inr (Some (join ''out'' ''memory-reports''))) \<and>
      Cant_merge_property_value ''version'' \<in> set out \<and>
      property (JObject (AList.update ''reports''
                 (JArray (concat (map reports_of (fragment_a # [fragment_b, fragment_c])))) kvs))
        ''version'' = Some (JInt 1))"
proof -
  have h1: "list_all is_fragment (fragment_a # [fragment_b, fragment_c])"
    by code_simp
  have h2: "list_all (same_names fragment_a) [fragment_b, fragment_c]"
    by code_simp
  have h3: "fragment_c \<in> set [fragment_b, fragment_c]"
    by simp
  have h4: "''version'' \<noteq> ''reports''"
    by simp
  have h5: "property fragment_a ''version'' = Some (JInt 1)"
    by code_simp
  have h6: "property fragment_c ''version'' = Some (JInt 2)"
    by code_simp
  have h7: "py_ne (JInt 2) (JInt 1)"
    by code_simp
  from merge_property_conflict [OF h1 h2 h3 h4 h5 h6 h7, of example_env "''out''"]
    h1 h2 h3 h5 h6 h7
  show ?thesis
    by blast
qed

text \<open>
  C5 as it is written fails where two values differ and Python's \<^verbatim>\<open>!=\<close> calls them equal:
  numbers and booleans are compared by their numeric value. One fragment has \<^verbatim>\<open>1\<close> and
  the other \<^verbatim>\<open>true\<close> for the same property; the merge prints no conflict.
\<close>

theorem merge_numeric_agreement_counterexample:
  "list_all is_fragment [fragment_int, fragment_bool] \<and>
   same_names fragment_int fragment_bool \<and>
   property fragment_int ''hasMozMallocUsableSize'' = Some (JInt 1) \<and>
   property fragment_bool ''hasMozMallocUsableSize'' = Some (JBool True) \<and>
   JInt 1 \<noteq> JBool True \<and>
   merge_dumps example_env ''out'' [fragment_int, fragment_bool]
     = ([Dump ''out/memory-reports'' fragment_int], Inr (Some ''out/memory-reports''))"
  by code_simp

subsection \<open>The callers of the merge\<close>

text \<open>
  C3 says that after a schema mismatch the calling pipeline goes on without a
  consolidated report. It does not: \<^verbatim>\<open>merge_files\<close> returns \<^verbatim>\<open>None\<close>, \<^verbatim>\<open>get_dumps\<close> hands
  that to \<^verbatim>\<open>os.path.abspath\<close>, which raises \<^verbatim>\<open>AttributeError\<close>, and the exception leaves
  \<^verbatim>\<open>get_dumps\<close> and \<^verbatim>\<open>get_and_show_info\<close>. The session of \<^const>\<open>example_env\<close> pulls two
  fragments with different property names.
\<close>

theorem schema_mismatch_ends_run:
  "merge_files example_env ''out'' [''memory-report-1'', ''memory-report-2'']
     = ([Print Cant_merge_property_set], Inr None) \<and>
   do_work example_env example_args ''out''
     = ([Print Cant_merge_property_set], Inl AttributeError) \<and>
   get_and_show_info example_env example_args
     = ([Print Cant_merge_property_set, Rmdir_if_empty ''out''], Inl AttributeError)"
  by code_simp

text \<open>
  C9. When no memory-report fragment was pulled, \<^verbatim>\<open>get_dumps\<close> does not call the merge
  (it has no effect at all, whatever loading a file would do), yields \<^verbatim>\<open>None\<close> for the
  merged report's path and raises nothing; \<^verbatim>\<open>get_and_show_info\<close> then prints that it
  failed to retrieve memory reports and goes on to the DMD files.
\<close>

theorem no_fragments_no_merge:
  assumes "create_output_dir E = Inr out_dir"
    and "notify_and_pull_files E = Inr new_files"
    and "filter is_memory_report new_files = []"
    and "pull_procrank_etc E = None"
  shows "get_dumps E A = ([], Inr (out_dir, None, map (join out_dir) (filter is_dmd_file new_files))) \<and>
         get_and_show_info E A =
           ((if filter is_dmd_file new_files \<noteq> [] \<and> \<not> no_dmd A
             then [Print (Got_DMD_dumps (length (filter is_dmd_file new_files)))] else [])
            @ [Print Failed_to_retrieve_memory_reports]
            @ process_dmd_files E (map (join out_dir) (filter is_dmd_file new_files)) A,
            Inr ())"
proof -
  have w: "do_work E A out_dir = ([], Inr (out_dir, None, map (join out_dir) (filter is_dmd_file new_files)))"
    using assms(2-4) by (simp add: do_work_def)
  then have g: "get_dumps E A = ([], Inr (out_dir, None, map (join out_dir) (filter is_dmd_file new_files)))"
    using assms(1) by (simp add: get_dumps_def run_and_delete_dir_on_exception_def)
  then show ?thesis
    by (simp add: get_and_show_info_def)
qed

theorem no_fragments_no_merge_witness:
  "create_output_dir no_reports_env = Inr ''out'' \<and>
   notify_and_pull_files no_reports_env = Inr [''dmd-1609459200-1234.json.gz''] \<and>
   filter is_memory_report [''dmd-1609459200-1234.json.gz''] = [] \<and>
   pull_procrank_etc no_reports_env = None \<and>
   get_dumps no_reports_env example_args =
     ([], Inr (''out'', None, [''out/dmd-1609459200-1234.json.gz'']))"
proof -
  have h1: "create_output_dir no_reports_env = Inr ''out''"
    by (simp add: no_reports_env_def example_env_def)
  have h2: "notify_and_pull_files no_reports_env = Inr [''dmd-1609459200-1234.json.gz'']"
    by (simp add: no_reports_env_def example_env_def)
  have h3: "filter is_memory_report [''dmd-1609459200-1234.json.gz''] = []"
    by code_simp
  have h4: "pull_procrank_etc no_reports_env = None"
    by (simp add: no_reports_env_def example_env_def)
  have "map (join ''out'') (filter is_dmd_file [''dmd-1609459200-1234.json.gz''])
      = [''out/dmd-1609459200-1234.json.gz'']"
    by code_simp
  with no_fragments_no_merge [OF h1 h2 h3 h4, of example_args] h1 h2 h3 h4 show ?thesis
    by simp
qed

subsection \<open>Processing the DMD files\<close>

lemma dmd_loop_append:
  "dmd_loop E A out_dir pn xs = (effs, None) \<Longrightarrow>
   dmd_loop E A out_dir pn (xs @ ys) =
     (effs @ fst (dmd_loop E A out_dir pn ys), snd (dmd_loop E A out_dir pn ys))"
proof (induction xs arbitrary: effs)
  case Nil
  then show ?case by simp
next
  case (Cons x xs)
  obtain e1 r1 where p: "process_one E A out_dir pn x = (e1, r1)"
    by (cases "process_one E A out_dir pn x")
  show ?case
  proof (cases r1)
    case (Some e)
    with Cons.prems p show ?thesis by simp
  next
    case None
    obtain e2 r2 where l: "dmd_loop E A out_dir pn xs = (e2, r2)"
      by (cases "dmd_loop E A out_dir pn xs")
    with Cons.prems p None have "r2 = None" and "effs = e1 @ e2"
      by (simp_all add: Let_def)
    with Cons.IH [of e2] l p None show ?thesis
      by (simp add: Let_def)
  qed
qed

text \<open>
  C8, as the code has it. The loop over the artifacts has no handler of its own: when
  processing one artifact raises, after the artifacts before it were processed, none of
  the artifacts after it is processed: what \<^verbatim>\<open>process_dmd_files\<close> does is what it does
  when the sequence ends with the failing artifact. It catches the exception, prints the
  error notice and returns.
\<close>

theorem dmd_batch_aborts:
  assumes "\<not> no_dmd A"
    and "get_proc_names E (dirname (hd (pre @ [f]))) = Inr (proc_names, procrank)"
    and "dmd_loop E A (dirname (hd (pre @ [f]))) proc_names pre = (finished, None)"
    and "process_one E A (dirname (hd (pre @ [f]))) proc_names f = (partial, Some e)"
  shows "process_dmd_files E (pre @ f # post) A =
           Print Processing_DMD_files # finished @ partial @ [Print (Error_processing_DMD_dumps e)] \<and>
         process_dmd_files E (pre @ f # post) A = process_dmd_files E (pre @ [f]) A"
proof -
  let ?d = "dirname (hd (pre @ [f]))"
  have trace: "process_dmd_files E (pre @ f # rest) A =
      Print Processing_DMD_files # finished @ partial @ [Print (Error_processing_DMD_dumps e)]"
    for rest
  proof -
    have hd_eq: "hd (pre @ f # rest) = hd (pre @ [f])"
      by (cases pre) simp_all
    have "dmd_loop E A ?d proc_names (f # rest) = (partial, Some e)"
      using assms(4) by simp
    with dmd_loop_append [OF assms(3), of "f # rest"]
    have loop: "dmd_loop E A ?d proc_names (pre @ f # rest) = (finished @ partial, Some e)"
      by simp
    obtain x xs where c: "pre @ f # rest = x # xs"
      by (cases "pre @ f # rest") simp_all
    with hd_eq have x: "dirname x = ?d" by simp
    have "process_dmd_files_impl E (pre @ f # rest) A = (finished @ partial, Some e)"
      unfolding process_dmd_files_impl_def c
      using x assms(2) loop c by (simp add: Let_def)
    then show ?thesis
      using assms(1) by (simp add: process_dmd_files_def)
  qed
  from trace [of post] trace [of "[]"] show ?thesis
    by simp
qed

theorem dmd_batch_aborts_witness:
  "\<not> no_dmd example_args \<and>
   get_proc_names example_env
     (dirname (hd ([''out/dmd-1609459200-1234.json.gz''] @ [''out/dmd-1609459200-77.txt.gz''])))
     = Inr (proc_names_loop (split_nl procrank_text) Map.empty, split_nl procrank_text) \<and>
   dmd_loop example_env example_args
     (dirname (hd ([''out/dmd-1609459200-1234.json.gz''] @ [''out/dmd-1609459200-77.txt.gz''])))
     (proc_names_loop (split_nl procrank_text) Map.empty) [''out/dmd-1609459200-1234.json.gz'']
     = ([Create ''out/dmd-b2g-1234.json.gz'', Remove ''out/dmd-1609459200-1234.json.gz''], None) \<and>
   process_one example_env example_args
     (dirname (hd ([''out/dmd-1609459200-1234.json.gz''] @ [''out/dmd-1609459200-77.txt.gz''])))
     (proc_names_loop (split_nl procrank_text) Map.empty) ''out/dmd-1609459200-77.txt.gz''
     = ([Create ''out/dmd-preallocated-77.txt.gz''], Some IOError) \<and>
   process_dmd_files example_env
     ([''out/dmd-1609459200-1234.json.gz''] @
      ''out/dmd-1609459200-77.txt.gz'' # [''out/dmd-1609459200-5.txt.gz'']) example_args
     = Print Processing_DMD_files #
       [Create ''out/dmd-b2g-1234.json.gz'', Remove ''out/dmd-1609459200-1234.json.gz'']
       @ [Create ''out/dmd-preallocated-77.txt.gz'']
       @ [Print (Error_processing_DMD_dumps IOError)]"
proof -
  have h1: "\<not> no_dmd example_args"
    by (simp add: example_args_def)
  have d: "dirname (hd ([''out/dmd-1609459200-1234.json.gz''] @ [''out/dmd-1609459200-77.txt.gz'']))
      = ''out''"
    by code_simp
  have j: "join ''out'' ''b2g-procrank'' = ''out/b2g-procrank''"
    by code_simp
  have h2: "get_proc_names example_env
     (dirname (hd ([''out/dmd-1609459200-1234.json.gz''] @ [''out/dmd-1609459200-77.txt.gz''])))
     = Inr (proc_names_loop (split_nl procrank_text) Map.empty, split_nl procrank_text)"
    unfolding d get_proc_names_def j by (simp add: example_env_def Let_def)
  have h3: "dmd_loop example_env example_args
     (dirname (hd ([''out/dmd-1609459200-1234.json.gz''] @ [''out/dmd-1609459200-77.txt.gz''])))
     (proc_names_loop (split_nl procrank_text) Map.empty) [''out/dmd-1609459200-1234.json.gz'']
     = ([Create ''out/dmd-b2g-1234.json.gz'', Remove ''out/dmd-1609459200-1234.json.gz''], None)"
    by code_simp
  have h4: "process_one example_env example_args
     (dirname (hd ([''out/dmd-1609459200-1234.json.gz''] @ [''out/dmd-1609459200-77.txt.gz''])))
     (proc_names_loop (split_nl procrank_text) Map.empty) ''out/dmd-1609459200-77.txt.gz''
     = ([Create ''out/dmd-preallocated-77.txt.gz''], Some IOError)"
    by code_simp
  from dmd_batch_aborts [OF h1 h2 h3 h4, of "[''out/dmd-1609459200-5.txt.gz'']"] h1 h2 h3 h4
  show ?thesis by blast
qed

text \<open>
  C8 as it is written fails: the dump of PID 77 is not a gzip file and the resolver
  raises on it; the dump of PID 5 after it, which is processed when it is alone, is
  not touched.
\<close>

theorem dmd_batch_counterexample:
  "process_dmd_files example_env
     [''out/dmd-1609459200-77.txt.gz'', ''out/dmd-1609459200-5.txt.gz''] example_args
     = [Print Processing_DMD_files, Create ''out/dmd-preallocated-77.txt.gz'',
        Print (Error_processing_DMD_dumps IOError)] \<and>
   process_dmd_files example_env [''out/dmd-1609459200-5.txt.gz''] example_args
     = [Print Processing_DMD_files, Create ''out/dmd-5.txt.gz'',
        Remove ''out/dmd-1609459200-5.txt.gz'', Print (Done_processing_DMD_files ''out'')]"
  by code_simp

text \<open>
  C6, as the code has it. For an artifact whose basename the DMD pattern matches, the
  creation time is decoded first. When that raises, no name is chosen and no file is
  written. When it does not, the output name is \<^verbatim>\<open>dmd-<resolvedName>-<pid>.<format>\<close> when
  the PID is in the name map and \<^verbatim>\<open>dmd-<pid>.<format>\<close> when it is not, and the file
  opened for writing is that name in the output directory, with \<^verbatim>\<open>.gz\<close> appended if and
  only if the compress-DMD-logs option is on.
\<close>

theorem dmd_outfile_name:
  assumes "re_match dmd_rx (basename f) = Some m"
  shows "\<exists>ts pid format.
           m = [ts, pid, format] \<and> pid \<noteq> [] \<and> list_all is_digit pid \<and>
           (format = ''txt'' \<or> format = ''json'') \<and>
           (case datetime_fromtimestamp E (py_int ts) of
              Some e \<Rightarrow>
                outfile_name_of E proc_names (basename f) = Inl e \<and>
                process_one E A out_dir proc_names f = ([], Some e)
            | None \<Rightarrow>
                outfile_name_of E proc_names (basename f) =
                  Inr (dmd_output_name proc_names (py_int pid) format) \<and>
                (\<exists>rest err. process_one E A out_dir proc_names f =
                   (Create (join out_dir (dmd_output_name proc_names (py_int pid) format)
                            @ gz_suffix A) # rest, err)))"
proof -
  from dmd_match_shape [OF assms(1)] obtain ts pid format where
    m: "m = [ts, pid, format]" and pid: "pid \<noteq> []" "list_all is_digit pid"
    and format: "format = ''txt'' \<or> format = ''json''"
    by blast
  have "case datetime_fromtimestamp E (py_int ts) of
              Some e \<Rightarrow>
                outfile_name_of E proc_names (basename f) = Inl e \<and>
                process_one E A out_dir proc_names f = ([], Some e)
            | None \<Rightarrow>
                outfile_name_of E proc_names (basename f) =
                  Inr (dmd_output_name proc_names (py_int pid) format) \<and>
                (\<exists>rest err. process_one E A out_dir proc_names f =
                   (Create (join out_dir (dmd_output_name proc_names (py_int pid) format)
                            @ gz_suffix A) # rest, err))"
  proof (cases "datetime_fromtimestamp E (py_int ts)")
    case (Some e)
    with assms m have n: "outfile_name_of E proc_names (basename f) = Inl e"
      by (simp add: outfile_name_of_def match_group_def)
    then have "process_one E A out_dir proc_names f = ([], Some e)"
      by (simp add: process_one_def)
    with n Some show ?thesis by simp
  next
    case None
    with assms m have n: "outfile_name_of E proc_names (basename f) =
           Inr (dmd_output_name proc_names (py_int pid) format)"
      by (simp add: outfile_name_of_def dmd_output_name_def match_group_def Let_def
          split: option.splits)
    have "\<exists>rest err. process_one E A out_dir proc_names f =
            (Create (join out_dir (dmd_output_name proc_names (py_int pid) format)
                     @ gz_suffix A) # rest, err)"
      using n
      by (auto simp: process_one_def written_path_def gz_suffix_def Let_def split: option.splits)
    with n None show ?thesis by simp
  qed
  with m pid format show ?thesis by blast
qed

theorem dmd_outfile_name_witness:
  "re_match dmd_rx (basename ''out/dmd-1609459200-1234.json.gz'')
     = Some [''1609459200'', ''1234'', ''json''] \<and>
   datetime_fromtimestamp example_env (py_int ''1609459200'') = None \<and>
   outfile_name_of example_env [1234 \<mapsto> ''b2g''] (basename ''out/dmd-1609459200-1234.json.gz'')
     = Inr ''dmd-b2g-1234.json'' \<and>
   (\<exists>rest err. process_one example_env example_args ''out'' [1234 \<mapsto> ''b2g'']
        ''out/dmd-1609459200-1234.json.gz''
      = (Create ''out/dmd-b2g-1234.json.gz'' # rest, err))"
proof -
  have h1: "re_match dmd_rx (basename ''out/dmd-1609459200-1234.json.gz'')
     = Some [''1609459200'', ''1234'', ''json'']"
    by code_simp
  have h2: "datetime_fromtimestamp example_env (py_int ''1609459200'') = None"
    by code_simp
  have n: "dmd_output_name [1234 \<mapsto> ''b2g''] (py_int ''1234'') ''json'' = ''dmd-b2g-1234.json''"
    by code_simp
  have p: "join ''out'' ''dmd-b2g-1234.json'' @ gz_suffix example_args = ''out/dmd-b2g-1234.json.gz''"
    by code_simp
  from dmd_outfile_name [OF h1, of example_env "[1234 \<mapsto> ''b2g'']" example_args "''out''"]
  obtain ts pid format where
    m: "[''1609459200'', ''1234'', ''json''] = [ts, pid, format]"
    and c: "case datetime_fromtimestamp example_env (py_int ts) of
              Some e \<Rightarrow>
                outfile_name_of example_env [1234 \<mapsto> ''b2g'']
                  (basename ''out/dmd-1609459200-1234.json.gz'') = Inl e \<and>
                process_one example_env example_args ''out'' [1234 \<mapsto> ''b2g'']
                  ''out/dmd-1609459200-1234.json.gz'' = ([], Some e)
            | None \<Rightarrow>
                outfile_name_of example_env [1234 \<mapsto> ''b2g'']
                  (basename ''out/dmd-1609459200-1234.json.gz'') =
                  Inr (dmd_output_name [1234 \<mapsto> ''b2g''] (py_int pid) format) \<and>
                (\<exists>rest err. process_one example_env example_args ''out'' [1234 \<mapsto> ''b2g'']
                     ''out/dmd-1609459200-1234.json.gz'' =
                   (Create (join ''out'' (dmd_output_name [1234 \<mapsto> ''b2g''] (py_int pid) format)
                            @ gz_suffix example_args) # rest, err))"
    by blast
  from m have e: "ts = ''1609459200''" "pid = ''1234''" "format = ''json''"
    by simp_all
  from c have
    "outfile_name_of example_env [1234 \<mapsto> ''b2g'']
        (basename ''out/dmd-1609459200-1234.json.gz'') = Inr ''dmd-b2g-1234.json'' \<and>
     (\<exists>rest err. process_one example_env example_args ''out'' [1234 \<mapsto> ''b2g'']
          ''out/dmd-1609459200-1234.json.gz'' =
        (Create ''out/dmd-b2g-1234.json.gz'' # rest, err))"
    unfolding e h2 n p by (simp only: option.case)
  with h1 h2 show ?thesis by blast
qed

text \<open>
  C6 as it is written fails for a matched basename whose timestamp cannot be decoded:
  \<^verbatim>\<open>99999999999999\<close> is past the year 9999, \<^verbatim>\<open>datetime.fromtimestamp\<close> raises, and the
  artifact gets no output name and no file.
\<close>

theorem dmd_timestamp_counterexample:
  "re_match dmd_rx (basename ''out/dmd-99999999999999-5.txt.gz'')
     = Some [''99999999999999'', ''5'', ''txt''] \<and>
   outfile_name_of example_env Map.empty (basename ''out/dmd-99999999999999-5.txt.gz'')
     = Inl ValueError \<and>
   process_one example_env example_args ''out'' Map.empty ''out/dmd-99999999999999-5.txt.gz''
     = ([], Some ValueError)"
  by code_simp

lemma endswith_append:
  "length p \<le> length b \<Longrightarrow> endswith (pre @ b) p = endswith b p"
  by (simp add: endswith_def)

lemma take_append_strip:
  "n \<le> length b \<Longrightarrow> take (length (pre @ b) - n) (pre @ b) = pre @ take (length b - n) b"
  by simp

lemma endswith_processed:
  "endswith (''processed-'' @ b) ''.gz'' = endswith b ''.gz''"
proof (cases "3 \<le> length b")
  case True
  then have "length ''.gz'' \<le> length b" by simp
  then show ?thesis by (rule endswith_append)
next
  case False
  then consider "b = []" | x where "b = [x]" | x y where "b = [x, y]"
    by (cases b; cases "tl b"; cases "tl (tl b)") auto
  then show ?thesis
    by cases (simp_all add: endswith_def)
qed

lemma processed_name:
  "(let outfile_name = ''processed-'' @ b
    in if endswith outfile_name ''.gz''
       then take (length outfile_name - 3) outfile_name
       else outfile_name) = ''processed-'' @ without_trailing_gz b"
proof (cases "endswith b ''.gz''")
  case True
  then have "3 \<le> length b" by (simp add: endswith_def)
  then have "take (length (''processed-'' @ b) - 3) (''processed-'' @ b)
      = ''processed-'' @ take (length b - 3) b"
    by (rule take_append_strip)
  with True show ?thesis
    by (simp only: Let_def endswith_processed without_trailing_gz_def if_True)
next
  case False
  then show ?thesis
    by (simp only: Let_def endswith_processed without_trailing_gz_def if_False)
qed

text \<open>
  C7, as the code has it. For an artifact whose basename the DMD pattern does not match,
  the output name is \<^verbatim>\<open>processed-\<close> followed by the basename with a trailing \<^verbatim>\<open>.gz\<close>
  stripped; the file opened for writing has that name when the compress-DMD-logs option
  is off and that name with \<^verbatim>\<open>.gz\<close> appended when it is on.
\<close>

theorem generic_outfile_name:
  assumes "re_match dmd_rx (basename f) = None"
  shows "outfile_name_of E proc_names (basename f) =
           Inr (''processed-'' @ without_trailing_gz (basename f)) \<and>
         (\<exists>rest err. process_one E A out_dir proc_names f =
            (Create (join out_dir (''processed-'' @ without_trailing_gz (basename f))
                     @ gz_suffix A) # rest, err))"
proof -
  have "outfile_name_of E proc_names (basename f) =
      Inr (let outfile_name = ''processed-'' @ basename f
           in if endswith outfile_name ''.gz''
              then take (length outfile_name - 3) outfile_name
              else outfile_name)"
    using assms by (simp add: outfile_name_of_def Let_def)
  then have n: "outfile_name_of E proc_names (basename f) =
           Inr (''processed-'' @ without_trailing_gz (basename f))"
    by (simp only: processed_name)
  obtain r where r: "fix_b2g_stacks_in_file E f
       (written_path A out_dir (''processed-'' @ without_trailing_gz (basename f))) = r"
    by simp
  have w: "written_path A out_dir (''processed-'' @ without_trailing_gz (basename f)) =
      join out_dir (''processed-'' @ without_trailing_gz (basename f)) @ gz_suffix A"
    by (simp add: written_path_def gz_suffix_def Let_def)
  have "\<exists>rest err. process_one E A out_dir proc_names f =
            (Create (written_path A out_dir (''processed-'' @ without_trailing_gz (basename f)))
               # rest, err)"
    unfolding process_one_def n by (cases r) (use r in \<open>simp_all add: Let_def\<close>)
  with n w show ?thesis by simp
qed

theorem generic_outfile_name_witness:
  "re_match dmd_rx (basename ''out/foo-report.txt.gz'') = None \<and>
   outfile_name_of example_env Map.empty (basename ''out/foo-report.txt.gz'')
     = Inr ''processed-foo-report.txt'' \<and>
   (\<exists>rest err. process_one example_env (example_args \<lparr> compress_dmd_logs := False \<rparr>) ''out''
        Map.empty ''out/foo-report.txt.gz''
      = (Create ''out/processed-foo-report.txt'' # rest, err))"
proof -
  have h1: "re_match dmd_rx (basename ''out/foo-report.txt.gz'') = None"
    by code_simp
  have n: "''processed-'' @ without_trailing_gz (basename ''out/foo-report.txt.gz'')
      = ''processed-foo-report.txt''"
    by code_simp
  have p: "join ''out'' ''processed-foo-report.txt''
      @ gz_suffix (example_args \<lparr> compress_dmd_logs := False \<rparr>) = ''out/processed-foo-report.txt''"
    by code_simp
  from generic_outfile_name [OF h1, of example_env Map.empty
      "example_args \<lparr> compress_dmd_logs := False \<rparr>" "''out''"] h1
  show ?thesis unfolding n p by blast
qed

text \<open>
  C7 as it is written fails with the default options: the file written for
  \<^verbatim>\<open>foo-report.txt.gz\<close> is \<^verbatim>\<open>processed-foo-report.txt.gz\<close>.
\<close>

theorem generic_outfile_gz_counterexample:
  "re_match dmd_rx (basename ''out/foo-report.txt.gz'') = None \<and>
   process_one example_env example_args ''out'' Map.empty ''out/foo-report.txt.gz''
     = ([Create ''out/processed-foo-report.txt.gz'', Remove ''out/foo-report.txt.gz''], None) \<and>
   basename ''out/processed-foo-report.txt.gz''
     \<noteq> ''processed-'' @ without_trailing_gz (basename ''out/foo-report.txt.gz'')"
  by code_simp

end
